theory Spec2Isabelle
  imports Main "HOL-Library.Word"
begin

section \<open>The syntax tree\<close>

text \<open>
  The compiler keeps its program as a tree of \<^verbatim>\<open>node_t\<close> structures: a type tag, a
  union of payloads, a pointer to a symbol and an array of child pointers. A pointer
  to a node is a value of type \<open>node\<close>; the null pointer is \<open>Null\<close>.

  Modelled from the spec: the header that declares \<^verbatim>\<open>node_t\<close>, \<^verbatim>\<open>node_type_t\<close>, \<^verbatim>\<open>symbol_t\<close>
  and \<^verbatim>\<open>symtype_t\<close> is not among the sources. The node kinds and symbol kinds below are
  the ones the specification lists and the source files name; the fields are the ones
  the source files read and write.
\<close>

datatype node_type =
    LIST
  | GLOBAL_DECLARATION
  | FUNCTION
  | BLOCK
  | ASSIGNMENT_STATEMENT
  | PRINT_STATEMENT
  | RETURN_STATEMENT
  | BREAK_STATEMENT
  | IF_STATEMENT
  | WHILE_STATEMENT
  | FUNCTION_CALL
  | ARRAY_INDEXING
  | OPERATOR
  | IDENTIFIER
  | NUMBER_LITERAL
  | STRING_LITERAL
  | STRING_LIST_REFERENCE

text \<open>
  The union \<^verbatim>\<open>data\<close>: one member is stored at a time. \<open>No_Data\<close> is the union of a node
  that \<^verbatim>\<open>node_create\<close> has just zeroed.
\<close>

datatype node_data =
    No_Data
  | Operator string
  | Identifier string
  | Number_Literal "64 word"
  | String_Literal string
  | String_List_Index nat

datatype symtype =
    SYMBOL_GLOBAL_VAR
  | SYMBOL_GLOBAL_ARRAY
  | SYMBOL_FUNCTION
  | SYMBOL_PARAMETER
  | SYMBOL_LOCAL_VAR

text \<open>
  A symbol records its kind, its name, the node that declares it and its sequence
  number. The declaring node is held by value: it is the tree as it stood when the
  symbol was made.
\<close>

datatype node =
    Null
  | Node node_type node_data "symbol option" "node list"
and symbol =
    Symbol symtype string node nat

text \<open>
  What stops the compiler, or leaves C's defined behaviour: each is a value of the
  model, so that no function of the model hides one.
\<close>

datatype fault =
    Null_Dereference
  | Out_Of_Bounds
  | Inactive_Member
  | Assertion_Failed
  | Exit_Failure
  | Signed_Overflow
  | Division_Trap

fun stype :: "symbol \<Rightarrow> symtype" where
  "stype (Symbol t n d q) = t"

fun sname :: "symbol \<Rightarrow> string" where
  "sname (Symbol t n d q) = n"

fun snode :: "symbol \<Rightarrow> node" where
  "snode (Symbol t n d q) = d"

fun symbol_sequence_number :: "symbol \<Rightarrow> nat" where
  "symbol_sequence_number (Symbol t n d q) = q"

text \<open>\<^verbatim>\<open>children[i]\<close>: a read past \<^verbatim>\<open>n_children\<close> is a fault.\<close>

definition child :: "node list \<Rightarrow> nat \<Rightarrow> fault + node" where
  "child cs i = (if i < length cs then Inr (cs ! i) else Inl Out_Of_Bounds)"

text \<open>\<^verbatim>\<open>p->type\<close>, \<^verbatim>\<open>p->children\<close> and the members of \<^verbatim>\<open>p->data\<close>.\<close>

fun type_of :: "node \<Rightarrow> fault + node_type" where
  "type_of Null = Inl Null_Dereference"
| "type_of (Node t d s cs) = Inr t"

fun children_of :: "node \<Rightarrow> fault + node list" where
  "children_of Null = Inl Null_Dereference"
| "children_of (Node t d s cs) = Inr cs"

fun number_literal_of :: "node \<Rightarrow> fault + 64 word" where
  "number_literal_of Null = Inl Null_Dereference"
| "number_literal_of (Node t (Number_Literal v) s cs) = Inr v"
| "number_literal_of (Node t d s cs) = Inl Inactive_Member"

fun operator_of :: "node \<Rightarrow> fault + string" where
  "operator_of Null = Inl Null_Dereference"
| "operator_of (Node t (Operator x) s cs) = Inr x"
| "operator_of (Node t d s cs) = Inl Inactive_Member"

fun identifier_of :: "node \<Rightarrow> fault + string" where
  "identifier_of Null = Inl Null_Dereference"
| "identifier_of (Node t (Identifier x) s cs) = Inr x"
| "identifier_of (Node t d s cs) = Inl Inactive_Member"

fun string_literal_of :: "node \<Rightarrow> fault + string" where
  "string_literal_of Null = Inl Null_Dereference"
| "string_literal_of (Node t (String_Literal x) s cs) = Inr x"
| "string_literal_of (Node t d s cs) = Inl Inactive_Member"

text \<open>
  \<^verbatim>\<open>node_create(type, n, ...)\<close>: the compound literal zeroes every field it does not
  name, so the payload is empty and the symbol pointer null.
\<close>

definition node_create :: "node_type \<Rightarrow> node list \<Rightarrow> node" where
  "node_create t cs = Node t No_Data None cs"

text \<open>A number literal as the optimizer builds it: a fresh node with the value stored.\<close>

definition literal :: "64 word \<Rightarrow> node" where
  "literal v = Node NUMBER_LITERAL (Number_Literal v) None []"

section \<open>Constant folding\<close>

text \<open>
  The operator functions take \<^verbatim>\<open>int\<close> parameters and are called through a pointer whose
  type returns \<^verbatim>\<open>int\<close>. Passing a 64-bit value to an \<^verbatim>\<open>int\<close> parameter keeps its low 32
  bits (\<open>to_int\<close>); an \<^verbatim>\<open>int\<close> widens to 64 bits with its sign (\<open>of_int32\<close>). Arithmetic
  on \<^verbatim>\<open>int\<close> that leaves the 32-bit range is undefined in C, and a division by zero (or
  of the least \<^verbatim>\<open>int\<close> by -1) traps: these are faults of the model.
\<close>

definition to_int :: "64 word \<Rightarrow> 32 word" where
  "to_int v = ucast v"

definition of_int32 :: "32 word \<Rightarrow> 64 word" where
  "of_int32 x = scast x"

definition in_int_range :: "int \<Rightarrow> bool" where
  "in_int_range i = (- (2 ^ 31) \<le> i \<and> i < 2 ^ 31)"

definition of_bool32 :: "bool \<Rightarrow> fault + 64 word" where
  "of_bool32 b = Inr (if b then 1 else 0)"

definition add :: "32 word \<Rightarrow> 32 word \<Rightarrow> fault + 64 word" where
  "add a b = (if in_int_range (sint a + sint b) then Inr (of_int32 (a + b))
              else Inl Signed_Overflow)"

definition subtract :: "32 word \<Rightarrow> 32 word \<Rightarrow> fault + 64 word" where
  "subtract a b = (if in_int_range (sint a - sint b) then Inr (of_int32 (a - b))
                   else Inl Signed_Overflow)"

definition multiply :: "32 word \<Rightarrow> 32 word \<Rightarrow> fault + 64 word" where
  "multiply a b = (if in_int_range (sint a * sint b) then Inr (of_int32 (a * b))
                   else Inl Signed_Overflow)"

text \<open>C's \<^verbatim>\<open>/\<close> truncates towards zero.\<close>

definition divide_int :: "32 word \<Rightarrow> 32 word \<Rightarrow> fault + 64 word" where
  "divide_int a b =
     (if b = 0 then Inl Division_Trap
      else if \<not> in_int_range (sgn (sint a) * sgn (sint b) * (\<bar>sint a\<bar> div \<bar>sint b\<bar>))
        then Inl Division_Trap
      else Inr (of_int32 (word_of_int (sgn (sint a) * sgn (sint b) * (\<bar>sint a\<bar> div \<bar>sint b\<bar>)))))"

definition equal :: "32 word \<Rightarrow> 32 word \<Rightarrow> fault + 64 word" where
  "equal a b = of_bool32 (a = b)"

definition not_equal :: "32 word \<Rightarrow> 32 word \<Rightarrow> fault + 64 word" where
  "not_equal a b = of_bool32 (a \<noteq> b)"

definition less_than_int :: "32 word \<Rightarrow> 32 word \<Rightarrow> fault + 64 word" where
  "less_than_int a b = of_bool32 (sint a < sint b)"

definition less_than_or_equal :: "32 word \<Rightarrow> 32 word \<Rightarrow> fault + 64 word" where
  "less_than_or_equal a b = of_bool32 (sint a \<le> sint b)"

definition greater_than :: "32 word \<Rightarrow> 32 word \<Rightarrow> fault + 64 word" where
  "greater_than a b = of_bool32 (sint a > sint b)"

definition greater_than_or_equal :: "32 word \<Rightarrow> 32 word \<Rightarrow> fault + 64 word" where
  "greater_than_or_equal a b = of_bool32 (sint a \<ge> sint b)"

definition negate :: "32 word \<Rightarrow> 32 word \<Rightarrow> fault + 64 word" where
  "negate a b = (if in_int_range (- sint a) then Inr (of_int32 (- a)) else Inl Signed_Overflow)"

definition not_int :: "32 word \<Rightarrow> 32 word \<Rightarrow> fault + 64 word" where
  "not_int a b = of_bool32 (a = 0)"

type_synonym operation_func = "32 word \<Rightarrow> 32 word \<Rightarrow> fault + 64 word"

definition operator_to_func_table :: "(string \<times> nat \<times> operation_func) list" where
  "operator_to_func_table =
    [(''+'', 2, add),
     (''-'', 2, subtract),
     (''*'', 2, multiply),
     (''/'', 2, divide_int),
     (''=='', 2, equal),
     (''!='', 2, not_equal),
     (''<'', 2, less_than_int),
     (''<='', 2, less_than_or_equal),
     (''>'', 2, greater_than),
     (''>='', 2, greater_than_or_equal),
     (''-'', 1, negate),
     (''!'', 1, not_int)]"

text \<open>The first row of the table with this operator and this arity, or the null pointer.\<close>

fun find_mapping :: "(string \<times> nat \<times> operation_func) list \<Rightarrow> string \<Rightarrow> nat \<Rightarrow> operation_func option" where
  "find_mapping [] x n = None"
| "find_mapping ((y, m, f) # rest) x n = (if y = x \<and> m = n then Some f else find_mapping rest x n)"

definition get_operator_func :: "string \<Rightarrow> nat \<Rightarrow> operation_func option" where
  "get_operator_func x n = find_mapping operator_to_func_table x n"

text \<open>
  \<open>func(value1, value2)\<close> through the pointer: the arguments narrow to \<^verbatim>\<open>int\<close>, and the
  caller reads an \<^verbatim>\<open>int\<close> result, which it widens into \<^verbatim>\<open>new_value\<close>.
\<close>

definition call_operation_func :: "operation_func \<Rightarrow> 64 word \<Rightarrow> 64 word \<Rightarrow> fault + 64 word" where
  "call_operation_func f value1 value2 =
     (case f (to_int value1) (to_int value2) of
        Inl e \<Rightarrow> Inl e
      | Inr r \<Rightarrow> Inr (of_int32 (to_int r)))"

text \<open>The first loop of \<^verbatim>\<open>constant_fold_operator\<close>: is some child not a number literal?\<close>

fun some_child_not_literal :: "node list \<Rightarrow> fault + bool" where
  "some_child_not_literal [] = Inr False"
| "some_child_not_literal (c # cs) =
     (case type_of c of
        Inl e \<Rightarrow> Inl e
      | Inr t \<Rightarrow> if t \<noteq> NUMBER_LITERAL then Inr True else some_child_not_literal cs)"

fun constant_fold_operator :: "node \<Rightarrow> fault + node" where
  "constant_fold_operator Null = Inl Null_Dereference"
| "constant_fold_operator (Node t d s cs) =
     (if t \<noteq> OPERATOR then Inl Assertion_Failed
      else case some_child_not_literal cs of
        Inl e \<Rightarrow> Inl e
      | Inr True \<Rightarrow> Inr (Node t d s cs)
      | Inr False \<Rightarrow>
         (case operator_of (Node t d s cs) of
            Inl e \<Rightarrow> Inl e
          | Inr x \<Rightarrow>
             (case child cs 0 of
                Inl e \<Rightarrow> Inl e
              | Inr c0 \<Rightarrow>
                 (case number_literal_of c0 of
                    Inl e \<Rightarrow> Inl e
                  | Inr value1 \<Rightarrow>
                     (case (if length cs > 1
                            then (case child cs 1 of Inl e \<Rightarrow> Inl e | Inr c1 \<Rightarrow> number_literal_of c1)
                            else Inr 0) of
                        Inl e \<Rightarrow> Inl e
                      | Inr value2 \<Rightarrow>
                         (case get_operator_func x (length cs) of
                            None \<Rightarrow> Inr (Node t d s cs)
                          | Some f \<Rightarrow>
                             (case call_operation_func f value1 value2 of
                                Inl e \<Rightarrow> Inl e
                              | Inr new_value \<Rightarrow> Inr (literal new_value))))))))"

fun constant_fold_if :: "node \<Rightarrow> fault + node" where
  "constant_fold_if Null = Inl Null_Dereference"
| "constant_fold_if (Node t d s cs) =
     (if t \<noteq> IF_STATEMENT then Inl Assertion_Failed
      else case child cs 0 of
        Inl e \<Rightarrow> Inl e
      | Inr condition_node \<Rightarrow>
         (case type_of condition_node of
            Inl e \<Rightarrow> Inl e
          | Inr ct \<Rightarrow>
             if ct \<noteq> NUMBER_LITERAL then Inr (Node t d s cs)
             else (case number_literal_of condition_node of
                Inl e \<Rightarrow> Inl e
              | Inr condition \<Rightarrow>
                 if condition \<noteq> 0 then child cs 1
                 else if length cs < 3 then Inr Null
                 else child cs 2)))"

fun constant_fold_while :: "node \<Rightarrow> fault + node" where
  "constant_fold_while Null = Inl Null_Dereference"
| "constant_fold_while (Node t d s cs) =
     (if t \<noteq> WHILE_STATEMENT then Inl Assertion_Failed
      else case child cs 0 of
        Inl e \<Rightarrow> Inl e
      | Inr condition_node \<Rightarrow>
         (case type_of condition_node of
            Inl e \<Rightarrow> Inl e
          | Inr ct \<Rightarrow>
             if ct \<noteq> NUMBER_LITERAL then Inr (Node t d s cs)
             else (case number_literal_of condition_node of
                Inl e \<Rightarrow> Inl e
              | Inr condition \<Rightarrow>
                 if condition = 0 then Inr Null else Inr (Node t d s cs))))"

text \<open>
  \<^verbatim>\<open>constant_fold_subtree\<close> folds each non-null child in place, left to right, and then
  the node itself. \<open>constant_fold_children\<close> is its loop over the child array.
\<close>

fun constant_fold_subtree :: "node \<Rightarrow> fault + node"
and constant_fold_children :: "node list \<Rightarrow> fault + node list" where
  "constant_fold_subtree Null = Inr Null"
| "constant_fold_subtree (Node t d s cs) =
     (case constant_fold_children cs of
        Inl e \<Rightarrow> Inl e
      | Inr cs' \<Rightarrow>
         (case t of
            OPERATOR \<Rightarrow> constant_fold_operator (Node t d s cs')
          | IF_STATEMENT \<Rightarrow> constant_fold_if (Node t d s cs')
          | WHILE_STATEMENT \<Rightarrow> constant_fold_while (Node t d s cs')
          | _ \<Rightarrow> Inr (Node t d s cs')))"
| "constant_fold_children [] = Inr []"
| "constant_fold_children (c # cs) =
     (case (if c \<noteq> Null then constant_fold_subtree c else Inr c) of
        Inl e \<Rightarrow> Inl e
      | Inr folded_child \<Rightarrow>
         (case constant_fold_children cs of
            Inl e \<Rightarrow> Inl e
          | Inr cs' \<Rightarrow> Inr (folded_child # cs')))"

section \<open>Unreachable code\<close>

text \<open>Storing new children into a node: \<^verbatim>\<open>p->children[..] = ..\<close> for the whole array.\<close>

fun set_children :: "node \<Rightarrow> node list \<Rightarrow> node" where
  "set_children Null cs' = Null"
| "set_children (Node t d s cs) cs' = Node t d s cs'"

lemma size_child_less:
  "child cs i = Inr c \<Longrightarrow> size c < Suc (size_list size cs)"
proof -
  assume "child cs i = Inr c"
  then have "c \<in> set cs"
    by (auto simp: child_def split: if_splits)
  then have "size c \<le> size_list size cs"
    by (rule size_list_estimation') simp
  then show ?thesis by simp
qed

lemma size_children_of_less:
  "children_of n = Inr cs \<Longrightarrow> size_list size cs < size n"
  by (cases n) auto

text \<open>
  \<^verbatim>\<open>remove_unreachable_code\<close> returns whether the statement interrupts execution, and
  edits the tree in place: the model returns the edited node beside the flag.
  \<open>remove_unreachable_statements\<close> is the loop over a block's statement list: at the
  first interrupting statement it cuts the list after that statement.
\<close>

function remove_unreachable_code :: "node \<Rightarrow> fault + (bool \<times> node)"
and remove_unreachable_statements :: "node list \<Rightarrow> fault + (bool \<times> node list)" where
  "remove_unreachable_code Null = Inr (False, Null)"
| "remove_unreachable_code (Node t d s cs) =
     (case t of
        RETURN_STATEMENT \<Rightarrow> Inr (True, Node t d s cs)
      | BREAK_STATEMENT \<Rightarrow> Inr (True, Node t d s cs)
      | IF_STATEMENT \<Rightarrow>
         (if length cs = 2 then
            (case child cs 1 of
               Inl e \<Rightarrow> Inl e
             | Inr then_node \<Rightarrow>
                (case remove_unreachable_code then_node of
                   Inl e \<Rightarrow> Inl e
                 | Inr (then_interrupts, then_node') \<Rightarrow>
                    Inr (False, Node t d s (cs[1 := then_node']))))
          else
            (case child cs 1 of
               Inl e \<Rightarrow> Inl e
             | Inr then_node \<Rightarrow>
                (case remove_unreachable_code then_node of
                   Inl e \<Rightarrow> Inl e
                 | Inr (then_interrupts, then_node') \<Rightarrow>
                    (case child cs 2 of
                       Inl e \<Rightarrow> Inl e
                     | Inr else_node \<Rightarrow>
                        (case remove_unreachable_code else_node of
                           Inl e \<Rightarrow> Inl e
                         | Inr (else_interrupts, else_node') \<Rightarrow>
                            Inr (then_interrupts \<and> else_interrupts,
                                 Node t d s (cs[1 := then_node', 2 := else_node'])))))))
      | WHILE_STATEMENT \<Rightarrow>
         (case child cs 1 of
            Inl e \<Rightarrow> Inl e
          | Inr body \<Rightarrow>
             (case remove_unreachable_code body of
                Inl e \<Rightarrow> Inl e
              | Inr (body_interrupts, body') \<Rightarrow> Inr (False, Node t d s (cs[1 := body']))))
      | BLOCK \<Rightarrow>
         (case child cs (length cs - 1) of
            Inl e \<Rightarrow> Inl e
          | Inr statement_list \<Rightarrow>
             (case children_of statement_list of
                Inl e \<Rightarrow> Inl e
              | Inr statements \<Rightarrow>
                 (case remove_unreachable_statements statements of
                    Inl e \<Rightarrow> Inl e
                  | Inr (interrupts, statements') \<Rightarrow>
                     Inr (interrupts,
                          Node t d s (cs[length cs - 1 := set_children statement_list statements'])))))
      | _ \<Rightarrow> Inr (False, Node t d s cs))"
| "remove_unreachable_statements [] = Inr (False, [])"
| "remove_unreachable_statements (statement # rest) =
     (case remove_unreachable_code statement of
        Inl e \<Rightarrow> Inl e
      | Inr (True, statement') \<Rightarrow> Inr (True, [statement'])
      | Inr (False, statement') \<Rightarrow>
         (case remove_unreachable_statements rest of
            Inl e \<Rightarrow> Inl e
          | Inr (interrupts, rest') \<Rightarrow> Inr (interrupts, statement' # rest')))"
  by pat_completeness auto
termination
  by (relation "measure (\<lambda>x. case x of Inl n \<Rightarrow> size n | Inr ns \<Rightarrow> size_list size ns)")
    (auto dest!: size_child_less size_children_of_less)

text \<open>
  The loop of \<^verbatim>\<open>remove_unreachable_code_syntax_tree\<close> over the children of the root: a
  function whose body is not reported as interrupting gets the body
  \<^verbatim>\<open>BLOCK(LIST(body, RETURN_STATEMENT(0)))\<close>.
\<close>

definition return_zero_block :: "node \<Rightarrow> node" where
  "return_zero_block function_body =
     node_create BLOCK
       [node_create LIST
          [function_body,
           node_create RETURN_STATEMENT [Node NUMBER_LITERAL (Number_Literal 0) None []]]]"

fun remove_unreachable_code_functions :: "node list \<Rightarrow> fault + node list" where
  "remove_unreachable_code_functions [] = Inr []"
| "remove_unreachable_code_functions (c # rest) =
     (case type_of c of
        Inl e \<Rightarrow> Inl e
      | Inr ct \<Rightarrow>
         (case (if ct \<noteq> FUNCTION then Inr c
                else case children_of c of
                  Inl e \<Rightarrow> Inl e
                | Inr fcs \<Rightarrow>
                   (case child fcs 2 of
                      Inl e \<Rightarrow> Inl e
                    | Inr function_body \<Rightarrow>
                       (case remove_unreachable_code function_body of
                          Inl e \<Rightarrow> Inl e
                        | Inr (has_return, function_body') \<Rightarrow>
                           if \<not> has_return
                           then Inr (set_children c (fcs[2 := return_zero_block function_body']))
                           else Inr (set_children c (fcs[2 := function_body']))))) of
            Inl e \<Rightarrow> Inl e
          | Inr c' \<Rightarrow>
             (case remove_unreachable_code_functions rest of
                Inl e \<Rightarrow> Inl e
              | Inr rest' \<Rightarrow> Inr (c' # rest'))))"

definition remove_unreachable_code_syntax_tree :: "node \<Rightarrow> fault + node" where
  "remove_unreachable_code_syntax_tree root =
     (case children_of root of
        Inl e \<Rightarrow> Inl e
      | Inr cs \<Rightarrow>
         (case remove_unreachable_code_functions cs of
            Inl e \<Rightarrow> Inl e
          | Inr cs' \<Rightarrow> Inr (set_children root cs')))"

section \<open>Symbol tables and name binding\<close>

text \<open>
  Modelled from the spec: the symbol table itself (\<^verbatim>\<open>symbol_table_init\<close>,
  \<^verbatim>\<open>symbol_table_insert\<close>, \<^verbatim>\<open>symbol_hashmap_init\<close>, \<^verbatim>\<open>symbol_hashmap_lookup\<close>) is in a
  file that is not among the sources. The spec gives a table an ordered list of symbols
  and a current scope map; a scope map has a fallback link to the map of the enclosing
  scope; a lookup walks the fallback links until the name is found or the chain ends;
  an insertion of a name that the current map already holds is a collision; and a
  symbol's sequence number is its position in the table, counted from 0 in insertion
  order.
\<close>

datatype symbol_hashmap =
    Hashmap "string \<Rightarrow> symbol option" "symbol_hashmap option"

record symbol_table =
  symbols :: "symbol list"
  hashmap :: symbol_hashmap

datatype insert_result = INSERT_OK | INSERT_COLLISION

definition symbol_hashmap_init :: symbol_hashmap where
  "symbol_hashmap_init = Hashmap (\<lambda>name. None) None"

fun set_backup :: "symbol_hashmap \<Rightarrow> symbol_hashmap \<Rightarrow> symbol_hashmap" where
  "set_backup (Hashmap m b) backup = Hashmap m (Some backup)"

fun symbol_hashmap_lookup :: "symbol_hashmap \<Rightarrow> string \<Rightarrow> symbol option" where
  "symbol_hashmap_lookup (Hashmap m b) name =
     (case m name of
        Some found \<Rightarrow> Some found
      | None \<Rightarrow> (case b of None \<Rightarrow> None | Some backup \<Rightarrow> symbol_hashmap_lookup backup name))"

fun set_sequence_number :: "symbol \<Rightarrow> nat \<Rightarrow> symbol" where
  "set_sequence_number (Symbol t n d q) q' = Symbol t n d q'"

fun symbol_hashmap_insert :: "symbol_hashmap \<Rightarrow> symbol \<Rightarrow> insert_result \<times> symbol_hashmap" where
  "symbol_hashmap_insert (Hashmap m b) smb =
     (if m (sname smb) \<noteq> None then (INSERT_COLLISION, Hashmap m b)
      else (INSERT_OK, Hashmap (m(sname smb \<mapsto> smb)) b))"

text \<open>
  The insertion stores the symbol with its sequence number set; the model returns that
  symbol beside the table, as the caller's pointer sees it.
\<close>

definition symbol_table_insert :: "symbol_table \<Rightarrow> symbol \<Rightarrow> insert_result \<times> symbol_table \<times> symbol" where
  "symbol_table_insert table smb =
     (let smb' = set_sequence_number smb (length (symbols table)) in
      case symbol_hashmap_insert (hashmap table) smb' of
        (INSERT_COLLISION, h) \<Rightarrow> (INSERT_COLLISION, table, smb)
      | (INSERT_OK, h) \<Rightarrow>
          (INSERT_OK, table\<lparr>symbols := symbols table @ [smb'], hashmap := h\<rparr>, smb'))"

text \<open>
  \<^verbatim>\<open>create_symbol\<close> (from the source): the fresh symbol has no sequence number until the
  insertion sets it; the null pointer it returns on a collision is \<open>None\<close>.
\<close>

definition create_symbol :: "node \<Rightarrow> string \<Rightarrow> symtype \<Rightarrow> symbol_table \<Rightarrow> symbol option \<times> symbol_table" where
  "create_symbol symbol_node name symbol_type table =
     (case symbol_table_insert table (Symbol symbol_type name symbol_node 0) of
        (INSERT_COLLISION, table', smb) \<Rightarrow> (None, table')
      | (INSERT_OK, table', smb) \<Rightarrow> (Some smb, table'))"

text \<open>The state that binding threads: the function's table and the global string list.\<close>

record bind_state =
  local_symbols :: symbol_table
  string_list :: "string list"

definition add_string :: "string list \<Rightarrow> string \<Rightarrow> nat \<times> string list" where
  "add_string strings string = (length strings, strings @ [string])"

text \<open>
  The two nested loops of the \<^verbatim>\<open>BLOCK\<close> case over the declaration list: every declared
  identifier becomes a local variable of the table, and a collision ends the compiler.
\<close>

fun declare_identifiers :: "node \<Rightarrow> symbol_table \<Rightarrow> node list \<Rightarrow> fault + symbol_table" where
  "declare_identifiers block table [] = Inr table"
| "declare_identifiers block table (identifier_node # rest) =
     (case identifier_of identifier_node of
        Inl e \<Rightarrow> Inl e
      | Inr name \<Rightarrow>
         (case create_symbol block name SYMBOL_LOCAL_VAR table of
            (None, table') \<Rightarrow> Inl Exit_Failure
          | (Some local_var_symbol, table') \<Rightarrow> declare_identifiers block table' rest))"

fun declare_identifier_lists :: "node \<Rightarrow> symbol_table \<Rightarrow> node list \<Rightarrow> fault + symbol_table" where
  "declare_identifier_lists block table [] = Inr table"
| "declare_identifier_lists block table (identifier_list_node # rest) =
     (case children_of identifier_list_node of
        Inl e \<Rightarrow> Inl e
      | Inr identifiers \<Rightarrow>
         (case declare_identifiers block table identifiers of
            Inl e \<Rightarrow> Inl e
          | Inr table' \<Rightarrow> declare_identifier_lists block table' rest))"

definition set_hashmap :: "bind_state \<Rightarrow> symbol_hashmap \<Rightarrow> bind_state" where
  "set_hashmap st h = st\<lparr>local_symbols := (local_symbols st)\<lparr>hashmap := h\<rparr>\<rparr>"

lemma size_list_drop_le: "size_list f (drop n xs) \<le> size_list f xs"
proof (induction xs arbitrary: n)
  case Nil
  show ?case by simp
next
  case (Cons x xs)
  show ?case
  proof (cases n)
    case 0
    then show ?thesis by simp
  next
    case (Suc m)
    with Cons [of m] show ?thesis by simp
  qed
qed

text \<open>
  \<^verbatim>\<open>bind_names\<close>: the model returns the state and the node as the traversal leaves them.
  \<open>bind_names_children\<close> is the loop over (a suffix of) the child array.
\<close>

function bind_names :: "bind_state \<Rightarrow> node \<Rightarrow> fault + (bind_state \<times> node)"
and bind_names_children :: "bind_state \<Rightarrow> node list \<Rightarrow> fault + (bind_state \<times> node list)" where
  "bind_names st Null = Inr (st, Null)"
| "bind_names st (Node t d s cs) =
     (let scope_hashmap = hashmap (local_symbols st) in
      case t of
        BLOCK \<Rightarrow>
         (let st1 = set_hashmap st (set_backup symbol_hashmap_init scope_hashmap) in
          case (if length cs = 2 then
                  (case child cs 0 of
                     Inl e \<Rightarrow> Inl e
                   | Inr first_child \<Rightarrow>
                      (case children_of first_child of
                         Inl e \<Rightarrow> Inl e
                       | Inr identifier_lists \<Rightarrow>
                          (case declare_identifier_lists (Node t d s cs) (local_symbols st1)
                                  identifier_lists of
                             Inl e \<Rightarrow> Inl e
                           | Inr table \<Rightarrow>
                              (case bind_names_children (st1\<lparr>local_symbols := table\<rparr>) (drop 1 cs) of
                                 Inl e \<Rightarrow> Inl e
                               | Inr (st2, cs') \<Rightarrow> Inr (st2, take 1 cs @ cs')))))
                else bind_names_children st1 cs) of
            Inl e \<Rightarrow> Inl e
          | Inr (st2, cs') \<Rightarrow> Inr (set_hashmap st2 scope_hashmap, Node t d s cs'))
      | IDENTIFIER \<Rightarrow>
         (case identifier_of (Node t d s cs) of
            Inl e \<Rightarrow> Inl e
          | Inr name \<Rightarrow>
             (case symbol_hashmap_lookup scope_hashmap name of
                None \<Rightarrow> Inl Exit_Failure
              | Some lookup_symbol \<Rightarrow> Inr (st, Node t d (Some lookup_symbol) cs)))
      | STRING_LITERAL \<Rightarrow>
         (case string_literal_of (Node t d s cs) of
            Inl e \<Rightarrow> Inl e
          | Inr string \<Rightarrow>
             (case add_string (string_list st) string of
                (index, strings) \<Rightarrow>
                  Inr (st\<lparr>string_list := strings\<rparr>,
                       Node STRING_LIST_REFERENCE (String_List_Index index) s cs)))
      | _ \<Rightarrow>
         (case bind_names_children st cs of
            Inl e \<Rightarrow> Inl e
          | Inr (st', cs') \<Rightarrow> Inr (st', Node t d s cs')))"
| "bind_names_children st [] = Inr (st, [])"
| "bind_names_children st (c # cs) =
     (case bind_names st c of
        Inl e \<Rightarrow> Inl e
      | Inr (st', c') \<Rightarrow>
         (case bind_names_children st' cs of
            Inl e \<Rightarrow> Inl e
          | Inr (st'', cs') \<Rightarrow> Inr (st'', c' # cs')))"
  by pat_completeness auto
termination
  by (relation "measure (\<lambda>x. case x of Inl (st, n) \<Rightarrow> size n | Inr (st, ns) \<Rightarrow> size_list size ns)")
    (auto simp: less_Suc_eq_le size_list_drop_le intro: le_trans [OF size_list_drop_le])

text \<open>
  The part of \<^verbatim>\<open>create_tables\<close> that handles one function symbol: \<open>st\<close> holds the
  function's table (made by \<^verbatim>\<open>find_globals\<close>, its scope map falling back on the global
  one) and \<open>function_node\<close> is the symbol's node. Every parameter becomes a symbol, then
  the body is bound. The pointer from a parameter symbol back to the table is not part
  of the model.
\<close>

fun create_parameter_symbols :: "symbol_table \<Rightarrow> node list \<Rightarrow> fault + symbol_table" where
  "create_parameter_symbols table [] = Inr table"
| "create_parameter_symbols table (parameter_node # rest) =
     (case type_of parameter_node of
        Inl e \<Rightarrow> Inl e
      | Inr pt \<Rightarrow>
         if pt \<noteq> IDENTIFIER then Inl Exit_Failure
         else (case identifier_of parameter_node of
            Inl e \<Rightarrow> Inl e
          | Inr name \<Rightarrow>
             (case create_symbol parameter_node name SYMBOL_PARAMETER table of
                (None, table') \<Rightarrow> Inl Exit_Failure
              | (Some parameter_symbol, table') \<Rightarrow> create_parameter_symbols table' rest)))"

definition create_tables_function :: "bind_state \<Rightarrow> node \<Rightarrow> fault + (bind_state \<times> node)" where
  "create_tables_function st function_node =
     (case children_of function_node of
        Inl e \<Rightarrow> Inl e
      | Inr fcs \<Rightarrow>
         (case child fcs 1 of
            Inl e \<Rightarrow> Inl e
          | Inr parameter_list_node \<Rightarrow>
             if length fcs < 3 then Inl Exit_Failure
             else (case children_of parameter_list_node of
                Inl e \<Rightarrow> Inl e
              | Inr parameters \<Rightarrow>
                 (case create_parameter_symbols (local_symbols st) parameters of
                    Inl e \<Rightarrow> Inl e
                  | Inr table \<Rightarrow>
                     (case child fcs 2 of
                        Inl e \<Rightarrow> Inl e
                      | Inr block_node \<Rightarrow>
                         (case bind_names (st\<lparr>local_symbols := table\<rparr>) block_node of
                            Inl e \<Rightarrow> Inl e
                          | Inr (st', block_node') \<Rightarrow>
                             Inr (st', set_children function_node (fcs[2 := block_node']))))))))"

section \<open>Code generation\<close>

text \<open>
  Modelled from the spec: the generator prints assembly through the macros of a header
  that is not among the sources (\<^verbatim>\<open>EMIT\<close>, \<^verbatim>\<open>LABEL\<close>, \<^verbatim>\<open>PUSHQ\<close>, ..., and the register
  names). The specification only says that the output is a stream of assembly text, so
  the model does not expand a macro: it records each use of a macro as a value that
  holds the macro's arguments, in the order of printing. A register macro (\<^verbatim>\<open>RAX\<close>, ...)
  is a \<open>reg\<close>; an argument is a register, a string or an integer.
\<close>

datatype reg = RAX | RCX | RDX | RDI | RSI | R8 | R9 | RBP | RSP | RIP | AL

datatype arg = A_reg reg | A_string string | A_int int

datatype emitted =
    EMIT string "arg list"
  | LABEL string "arg list"
  | PUSHQ arg
  | POPQ arg
  | MOVQ arg arg
  | ADDQ arg arg
  | SUBQ arg arg
  | IMULQ arg arg
  | CQO
  | IDIVQ arg
  | CMPQ arg arg
  | SETL arg
  | SETLE arg
  | SETG arg
  | SETGE arg
  | SETE arg
  | SETNE arg
  | MOVZBQ arg arg
  | NEGQ arg
  | RET

definition NUM_REGISTER_PARAMS :: nat where
  "NUM_REGISTER_PARAMS = 6"

definition REGISTER_PARAMS :: "reg list" where
  "REGISTER_PARAMS = [RDI, RSI, RDX, RCX, R8, R9]"

definition find_max :: "nat \<Rightarrow> nat \<Rightarrow> nat" where
  "find_max a b = (if a > b then a else b)"

definition find_min :: "nat \<Rightarrow> nat \<Rightarrow> nat" where
  "find_min a b = (if a < b then a else b)"

text \<open>Printing one part after another; the first fault ends the generator.\<close>

fun then_emit :: "fault + emitted list \<Rightarrow> fault + emitted list \<Rightarrow> fault + emitted list" where
  "then_emit (Inl e) later = Inl e"
| "then_emit (Inr xs) (Inl e) = Inl e"
| "then_emit (Inr xs) (Inr ys) = Inr (xs @ ys)"

fun symbol_of :: "node \<Rightarrow> fault + symbol" where
  "symbol_of Null = Inl Null_Dereference"
| "symbol_of (Node t d None cs) = Inl Null_Dereference"
| "symbol_of (Node t d (Some s) cs) = Inr s"

fun string_list_index_of :: "node \<Rightarrow> fault + nat" where
  "string_list_index_of Null = Inl Null_Dereference"
| "string_list_index_of (Node t (String_List_Index i) s cs) = Inr i"
| "string_list_index_of (Node t d s cs) = Inl Inactive_Member"

text \<open>\<^verbatim>\<open>FUNC_PARAM_COUNT(func)\<close>: \<^verbatim>\<open>func->node->children[1]->n_children\<close>.\<close>

definition FUNC_PARAM_COUNT :: "symbol \<Rightarrow> fault + nat" where
  "FUNC_PARAM_COUNT func =
     (case children_of (snode func) of
        Inl e \<Rightarrow> Inl e
      | Inr fcs \<Rightarrow>
         (case child fcs 1 of
            Inl e \<Rightarrow> Inl e
          | Inr parameter_list \<Rightarrow>
             (case children_of parameter_list of
                Inl e \<Rightarrow> Inl e
              | Inr parameters \<Rightarrow> Inr (length parameters))))"

text \<open>
  \<^verbatim>\<open>get_stack_offset\<close> computes in \<^verbatim>\<open>size_t\<close> (64 bits, where \<^verbatim>\<open>-8\<close> is \<open>2^64 - 8\<close>) and
  stores the product in an \<^verbatim>\<open>int\<close>, which keeps the low 32 bits as a signed number.
\<close>

definition size_t_to_int :: "64 word \<Rightarrow> int" where
  "size_t_to_int w = sint (ucast w :: 32 word)"

definition get_stack_offset :: "symbol \<Rightarrow> nat \<Rightarrow> fault + int" where
  "get_stack_offset current_function sequence_number =
     (case FUNC_PARAM_COUNT current_function of
        Inl e \<Rightarrow> Inl e
      | Inr param_count \<Rightarrow>
         Inr (if sequence_number < param_count then
                (if sequence_number > 5
                 then size_t_to_int (((of_nat sequence_number - 5) * 8) + 8)
                 else size_t_to_int ((of_nat sequence_number + 1) * (- 8)))
              else
                (let num_of_callee_pushed_params = find_max param_count NUM_REGISTER_PARAMS
                 in size_t_to_int
                      ((of_nat num_of_callee_pushed_params
                          + (of_nat sequence_number - of_nat param_count) + 1) * (- 8)))))"

text \<open>
  \<^verbatim>\<open>generate_expression\<close> and \<^verbatim>\<open>generate_function_call\<close> call each other;
  \<open>generate_arguments\<close> is the loop of the call over the argument list, last argument
  first. The first argument of each is \<^verbatim>\<open>current_function\<close>.
\<close>

function generate_expression :: "symbol \<Rightarrow> node \<Rightarrow> fault + emitted list"
and generate_function_call :: "symbol \<Rightarrow> node \<Rightarrow> fault + emitted list"
and generate_arguments :: "symbol \<Rightarrow> node list \<Rightarrow> fault + emitted list" where
  "generate_expression cf Null = Inr []"
| "generate_expression cf (Node t d s cs) =
     (case t of
        NUMBER_LITERAL \<Rightarrow>
         (case number_literal_of (Node t d s cs) of
            Inl e \<Rightarrow> Inl e
          | Inr v \<Rightarrow> Inr [EMIT ''movq $%d, %s'' [A_int (sint (to_int v)), A_reg RAX]])
      | IDENTIFIER \<Rightarrow>
         (case symbol_of (Node t d s cs) of
            Inl e \<Rightarrow> Inl e
          | Inr identifier_symbol \<Rightarrow>
             if stype identifier_symbol = SYMBOL_GLOBAL_VAR then
               (case identifier_of (Node t d s cs) of
                  Inl e \<Rightarrow> Inl e
                | Inr name \<Rightarrow>
                   Inr [EMIT ''movq .%s(%s), %s'' [A_string name, A_reg RIP, A_reg RAX]])
             else
               (case get_stack_offset cf (symbol_sequence_number identifier_symbol) of
                  Inl e \<Rightarrow> Inl e
                | Inr offset \<Rightarrow>
                   Inr [EMIT ''movq %d(%s), %s'' [A_int offset, A_reg RBP, A_reg RAX]]))
      | ARRAY_INDEXING \<Rightarrow>
         (case child cs 0 of
            Inl e \<Rightarrow> Inl e
          | Inr array_identifier_node \<Rightarrow>
             (case child cs 1 of
                Inl e \<Rightarrow> Inl e
              | Inr index_node \<Rightarrow>
                 then_emit (Inr [PUSHQ (A_reg RCX)])
                   (then_emit (generate_expression cf index_node)
                      (case identifier_of array_identifier_node of
                         Inl e \<Rightarrow> Inl e
                       | Inr name \<Rightarrow>
                          Inr [EMIT ''leaq .%s(%s), %s'' [A_string name, A_reg RIP, A_reg RCX],
                               EMIT ''leaq (%s, %s, 8), %s'' [A_reg RCX, A_reg RAX, A_reg RCX],
                               EMIT ''movq (%s), %s'' [A_reg RCX, A_reg RAX],
                               POPQ (A_reg RCX)]))))
      | OPERATOR \<Rightarrow>
         (if length cs > 1 then
            (case child cs 0 of
               Inl e \<Rightarrow> Inl e
             | Inr lhs \<Rightarrow>
                then_emit (generate_expression cf lhs)
                  (then_emit (Inr [PUSHQ (A_reg RAX)])
                     (case child cs 1 of
                        Inl e \<Rightarrow> Inl e
                      | Inr rhs \<Rightarrow>
                         then_emit (generate_expression cf rhs)
                           (then_emit (Inr [POPQ (A_reg RCX)])
                              (case operator_of (Node t d s cs) of
                                 Inl e \<Rightarrow> Inl e
                               | Inr x \<Rightarrow>
                                  if x = ''+'' then Inr [ADDQ (A_reg RCX) (A_reg RAX)]
                                  else if x = ''-'' then
                                    Inr [SUBQ (A_reg RAX) (A_reg RCX), MOVQ (A_reg RCX) (A_reg RAX)]
                                  else if x = ''*'' then Inr [IMULQ (A_reg RCX) (A_reg RAX)]
                                  else if x = ''/'' then
                                    Inr [CQO, MOVQ (A_reg RAX) (A_reg R8),
                                         MOVQ (A_reg RCX) (A_reg RAX), IDIVQ (A_reg R8)]
                                  else
                                    then_emit (Inr [CMPQ (A_reg RAX) (A_reg RCX)])
                                      (then_emit
                                         (if x = ''<'' then Inr [SETL (A_reg AL)]
                                          else if x = ''<='' then Inr [SETLE (A_reg AL)]
                                          else if x = ''>'' then Inr [SETG (A_reg AL)]
                                          else if x = ''>='' then Inr [SETGE (A_reg AL)]
                                          else if x = ''=='' then Inr [SETE (A_reg AL)]
                                          else if x = ''!='' then Inr [SETNE (A_reg AL)]
                                          else Inl Assertion_Failed)
                                         (Inr [MOVZBQ (A_reg AL) (A_reg RAX)])))))))
          else
            (case child cs 0 of
               Inl e \<Rightarrow> Inl e
             | Inr operand \<Rightarrow>
                then_emit (generate_expression cf operand)
                  (case operator_of (Node t d s cs) of
                     Inl e \<Rightarrow> Inl e
                   | Inr x \<Rightarrow>
                      if x = ''-'' then Inr [NEGQ (A_reg RAX)]
                      else if x = ''!'' then
                        Inr [EMIT ''test %s, %s'' [A_reg RAX, A_reg RAX],
                             SETE (A_reg AL), MOVZBQ (A_reg AL) (A_reg RAX)]
                      else Inl Assertion_Failed)))
      | FUNCTION_CALL \<Rightarrow> generate_function_call cf (Node t d s cs)
      | _ \<Rightarrow> Inr [])"
| "generate_function_call cf Null = Inl Null_Dereference"
| "generate_function_call cf (Node t d s cs) =
     (case child cs 0 of
        Inl e \<Rightarrow> Inl e
      | Inr identifier_node \<Rightarrow>
         (case symbol_of identifier_node of
            Inl e \<Rightarrow> Inl e
          | Inr function_identifier_symbol \<Rightarrow>
             if stype function_identifier_symbol \<noteq> SYMBOL_FUNCTION then Inl Assertion_Failed
             else (case FUNC_PARAM_COUNT function_identifier_symbol of
                Inl e \<Rightarrow> Inl e
              | Inr param_count \<Rightarrow>
                 (case child cs 1 of
                    Inl e \<Rightarrow> Inl e
                  | Inr parameter_list_node \<Rightarrow>
                     (case children_of parameter_list_node of
                        Inl e \<Rightarrow> Inl e
                      | Inr arguments \<Rightarrow>
                         then_emit (generate_arguments cf arguments)
                           (Inr (map (\<lambda>r. POPQ (A_reg r))
                                   (take (find_min param_count NUM_REGISTER_PARAMS) REGISTER_PARAMS)
                                 @ [EMIT ''call .%s'' [A_string (sname function_identifier_symbol)]])))))))"
| "generate_arguments cf [] = Inr []"
| "generate_arguments cf (param_node # earlier) =
     then_emit (generate_arguments cf earlier)
       (then_emit (generate_expression cf param_node) (Inr [PUSHQ (A_reg RAX)]))"
  by pat_completeness auto
termination
  by (relation "measure (\<lambda>x. case x of
          Inl (cf, n) \<Rightarrow> 2 * size n + 1
        | Inr (Inl (cf, n)) \<Rightarrow> 2 * size n
        | Inr (Inr (cf, ns)) \<Rightarrow> 2 * size_list size ns + 1)")
    (auto dest!: size_child_less size_children_of_less)

definition generate_assignment_statement :: "symbol \<Rightarrow> node \<Rightarrow> fault + emitted list" where
  "generate_assignment_statement cf statement =
     (case children_of statement of
        Inl e \<Rightarrow> Inl e
      | Inr cs \<Rightarrow>
         (case child cs 0 of
            Inl e \<Rightarrow> Inl e
          | Inr left_side \<Rightarrow>
             (case child cs 1 of
                Inl e \<Rightarrow> Inl e
              | Inr right_side \<Rightarrow>
                 then_emit (generate_expression cf right_side)
                   (case type_of left_side of
                      Inl e \<Rightarrow> Inl e
                    | Inr lt \<Rightarrow>
                       if lt = IDENTIFIER then
                         (case symbol_of left_side of
                            Inl e \<Rightarrow> Inl e
                          | Inr identifier_symbol \<Rightarrow>
                             if stype identifier_symbol = SYMBOL_GLOBAL_VAR then
                               Inr [EMIT ''movq %s, .%s(%s)''
                                      [A_reg RAX, A_string (sname identifier_symbol), A_reg RIP]]
                             else
                               (case get_stack_offset cf (symbol_sequence_number identifier_symbol) of
                                  Inl e \<Rightarrow> Inl e
                                | Inr offset \<Rightarrow>
                                   Inr [EMIT ''movq %s, %d(%s)''
                                          [A_reg RAX, A_int offset, A_reg RBP]]))
                       else if lt \<noteq> ARRAY_INDEXING then Inl Assertion_Failed
                       else
                         (case children_of left_side of
                            Inl e \<Rightarrow> Inl e
                          | Inr lcs \<Rightarrow>
                             (case child lcs 0 of
                                Inl e \<Rightarrow> Inl e
                              | Inr array_identifier_node \<Rightarrow>
                                 (case symbol_of array_identifier_node of
                                    Inl e \<Rightarrow> Inl e
                                  | Inr array_identifier_symbol \<Rightarrow>
                                     (case child lcs 1 of
                                        Inl e \<Rightarrow> Inl e
                                      | Inr index_node \<Rightarrow>
                                         then_emit (Inr [PUSHQ (A_reg RAX)])
                                           (then_emit (generate_expression cf index_node)
                                              (Inr [PUSHQ (A_reg RAX),
                                                    EMIT ''leaq .%s(%s), %s''
                                                      [A_string (sname array_identifier_symbol),
                                                       A_reg RIP, A_reg RCX],
                                                    POPQ (A_reg RAX),
                                                    EMIT ''leaq (%s, %s, 8), %s''
                                                      [A_reg RCX, A_reg RAX, A_reg RCX],
                                                    POPQ (A_reg RAX),
                                                    EMIT ''movq %s, (%s)''
                                                      [A_reg RAX, A_reg RCX]]))))))))))"

text \<open>The loop of \<^verbatim>\<open>generate_print_statement\<close> over the items of the print list.\<close>

fun generate_print_items :: "symbol \<Rightarrow> node list \<Rightarrow> fault + emitted list" where
  "generate_print_items cf [] = Inr []"
| "generate_print_items cf (child_node # rest) =
     (case type_of child_node of
        Inl e \<Rightarrow> Inl e
      | Inr ct \<Rightarrow>
         then_emit
           (if ct = STRING_LIST_REFERENCE then
              (case string_list_index_of child_node of
                 Inl e \<Rightarrow> Inl e
               | Inr i \<Rightarrow>
                  Inr [EMIT ''leaq strout(%s), %s'' [A_reg RIP, A_reg RDI],
                       EMIT ''leaq string%ld(%s), %s'' [A_int (int i), A_reg RIP, A_reg RSI]])
            else
              then_emit (generate_expression cf child_node)
                (Inr [EMIT ''leaq intout(%s), %s'' [A_reg RIP, A_reg RDI],
                      MOVQ (A_reg RAX) (A_reg RSI)]))
           (then_emit (Inr [EMIT ''call safe_printf'' []])
              (generate_print_items cf rest)))"

definition generate_print_statement :: "symbol \<Rightarrow> node \<Rightarrow> fault + emitted list" where
  "generate_print_statement cf statement =
     (case children_of statement of
        Inl e \<Rightarrow> Inl e
      | Inr cs \<Rightarrow>
         (case child cs 0 of
            Inl e \<Rightarrow> Inl e
          | Inr list_node \<Rightarrow>
             (case children_of list_node of
                Inl e \<Rightarrow> Inl e
              | Inr items \<Rightarrow>
                 then_emit (generate_print_items cf items)
                   (Inr [MOVQ (A_string ''$0x0A'') (A_reg RDI), EMIT ''call putchar'' []]))))"

definition generate_return_statement :: "symbol \<Rightarrow> node \<Rightarrow> fault + emitted list" where
  "generate_return_statement cf statement =
     (case children_of statement of
        Inl e \<Rightarrow> Inl e
      | Inr cs \<Rightarrow>
         (case child cs 0 of
            Inl e \<Rightarrow> Inl e
          | Inr expression \<Rightarrow>
             then_emit (generate_expression cf expression)
               (Inr [EMIT ''jmp .%s.epilogue'' [A_string (sname cf)]])))"

text \<open>
  \<^verbatim>\<open>generate_statement\<close>: the \<^verbatim>\<open>switch\<close> prints the statement, every case leaves it with
  \<^verbatim>\<open>break\<close>, and the loop after the \<^verbatim>\<open>switch\<close> visits every child of the node.
  \<open>generate_statement_children\<close> is that loop.
\<close>

fun generate_statement :: "symbol \<Rightarrow> node \<Rightarrow> fault + emitted list"
and generate_statement_children :: "symbol \<Rightarrow> node list \<Rightarrow> fault + emitted list" where
  "generate_statement cf Null = Inr []"
| "generate_statement cf (Node t d s cs) =
     then_emit
       (case t of
          ASSIGNMENT_STATEMENT \<Rightarrow> generate_assignment_statement cf (Node t d s cs)
        | PRINT_STATEMENT \<Rightarrow> generate_print_statement cf (Node t d s cs)
        | RETURN_STATEMENT \<Rightarrow> generate_return_statement cf (Node t d s cs)
        | FUNCTION_CALL \<Rightarrow> generate_function_call cf (Node t d s cs)
        | _ \<Rightarrow> Inr [])
       (generate_statement_children cf cs)"
| "generate_statement_children cf [] = Inr []"
| "generate_statement_children cf (c # cs) =
     then_emit (generate_statement cf c) (generate_statement_children cf cs)"

text \<open>
  \<^verbatim>\<open>generate_function\<close>: \<open>function_symbols\<close> is \<^verbatim>\<open>function->function_symtable->symbols\<close>,
  the symbols of the function's table in the order of their sequence numbers, and the
  node of \<open>func\<close> is the function's tree as binding left it.
\<close>

definition generate_function :: "symbol \<Rightarrow> symbol list \<Rightarrow> fault + emitted list" where
  "generate_function func function_symbols =
     then_emit (Inr [LABEL ''.%s'' [A_string (sname func)],
                     PUSHQ (A_reg RBP),
                     MOVQ (A_reg RSP) (A_reg RBP)])
       (case FUNC_PARAM_COUNT func of
          Inl e \<Rightarrow> Inl e
        | Inr param_count \<Rightarrow>
           (let no_of_params_to_push = find_min NUM_REGISTER_PARAMS param_count in
            then_emit (Inr (map (\<lambda>r. PUSHQ (A_reg r)) (take no_of_params_to_push REGISTER_PARAMS)))
              (then_emit
                 (Inr (map (\<lambda>smb. PUSHQ (A_string ''$0''))
                         (filter (\<lambda>smb. stype smb = SYMBOL_LOCAL_VAR) function_symbols)))
                 (then_emit (generate_statement func (snode func))
                    (Inr [LABEL ''.%s.epilogue'' [A_string (sname func)],
                          MOVQ (A_reg RBP) (A_reg RSP),
                          POPQ (A_reg RBP),
                          RET])))))"

section \<open>What the specification says, as definitions\<close>

text \<open>
  The definitions of this section follow the words of the specification, not the
  source: the theorems compare the source with them.
\<close>

subsection \<open>64-bit operator semantics\<close>

text \<open>
  The value the specification gives an operator applied to 64-bit literals: addition,
  subtraction and multiplication on 64 bits, division truncating towards zero,
  relational operators yielding 0 or 1, negation and logical not.
\<close>

definition spec_truth :: "bool \<Rightarrow> 64 word" where
  "spec_truth b = (if b then 1 else 0)"

definition spec_fold_value :: "string \<Rightarrow> 64 word list \<Rightarrow> 64 word option" where
  "spec_fold_value x vs =
     (case vs of
        [a, b] \<Rightarrow>
          if x = ''+'' then Some (a + b)
          else if x = ''-'' then Some (a - b)
          else if x = ''*'' then Some (a * b)
          else if x = ''/'' then
            (if b = 0 then None
             else Some (word_of_int (sgn (sint a) * sgn (sint b) * (\<bar>sint a\<bar> div \<bar>sint b\<bar>))))
          else if x = ''=='' then Some (spec_truth (a = b))
          else if x = ''!='' then Some (spec_truth (a \<noteq> b))
          else if x = ''<'' then Some (spec_truth (sint a < sint b))
          else if x = ''<='' then Some (spec_truth (sint a \<le> sint b))
          else if x = ''>'' then Some (spec_truth (sint a > sint b))
          else if x = ''>='' then Some (spec_truth (sint a \<ge> sint b))
          else None
      | [a] \<Rightarrow>
          if x = ''-'' then Some (- a)
          else if x = ''!'' then Some (spec_truth (a = 0))
          else None
      | _ \<Rightarrow> None)"

subsection \<open>The frame a prologue builds\<close>

text \<open>
  After \<^verbatim>\<open>pushq %rbp; movq %rsp, %rbp\<close> the stack pointer equals the frame pointer, and
  each further \<^verbatim>\<open>pushq\<close> stores its operand 8 bytes below the previous one: the first at
  \<^verbatim>\<open>-8(%rbp)\<close>, the second at \<^verbatim>\<open>-16(%rbp)\<close>. \<open>prologue_slots\<close> lists the operands that the
  run of pushes after the frame set-up stores, each with its offset from the frame
  pointer.
\<close>

fun slots_below :: "int \<Rightarrow> emitted list \<Rightarrow> (int \<times> arg) list" where
  "slots_below offset (PUSHQ a # rest) = (offset - 8, a) # slots_below (offset - 8) rest"
| "slots_below offset rest = []"

definition prologue_slots :: "emitted list \<Rightarrow> (int \<times> arg) list" where
  "prologue_slots out =
     slots_below 0 (drop 1 (dropWhile (\<lambda>i. i \<noteq> MOVQ (A_reg RSP) (A_reg RBP)) out))"

subsection \<open>Diverting statements\<close>

text \<open>
  A block holds its statement list as its last child. \<open>statements_of_block\<close> reads the
  statements of a block's children, \<open>with_statements_of_block\<close> stores new ones.
\<close>

definition statements_of_block :: "node list \<Rightarrow> node list" where
  "statements_of_block cs =
     (if cs = [] then []
      else case last cs of Null \<Rightarrow> [] | Node t d s statements \<Rightarrow> statements)"

definition with_statements_of_block :: "node list \<Rightarrow> node list \<Rightarrow> node list" where
  "with_statements_of_block cs statements =
     cs[length cs - 1 := set_children (last cs) statements]"

lemma size_statements_of_block:
  "size_list size (statements_of_block cs) \<le> size_list size cs"
proof (cases "cs = []")
  case True
  then show ?thesis by (simp add: statements_of_block_def)
next
  case False
  then have "last cs \<in> set cs" by simp
  then have le: "size (last cs) \<le> size_list size cs"
    by (rule size_list_estimation') simp
  show ?thesis
  proof (cases "last cs")
    case Null
    with False show ?thesis by (simp add: statements_of_block_def)
  next
    case (Node t d s statements)
    with False le show ?thesis by (simp add: statements_of_block_def)
  qed
qed

text \<open>
  The specification's rules for a statement that is guaranteed to divert control:
  \<^verbatim>\<open>return\<close> and \<^verbatim>\<open>break\<close> always; an \<^verbatim>\<open>if\<close> with both branches when both branches
  divert; an \<^verbatim>\<open>if\<close> with only a then-branch never; a \<^verbatim>\<open>while\<close> never; a block when one
  of its statements diverts.
\<close>

function diverts :: "node \<Rightarrow> bool"
and some_diverts :: "node list \<Rightarrow> bool" where
  "diverts Null = False"
| "diverts (Node t d s cs) =
     (case t of
        RETURN_STATEMENT \<Rightarrow> True
      | BREAK_STATEMENT \<Rightarrow> True
      | IF_STATEMENT \<Rightarrow>
         (case cs of [c, then_node, else_node] \<Rightarrow> diverts then_node \<and> diverts else_node
          | _ \<Rightarrow> False)
      | BLOCK \<Rightarrow> some_diverts (statements_of_block cs)
      | _ \<Rightarrow> False)"
| "some_diverts [] = False"
| "some_diverts (statement # rest) = (diverts statement \<or> some_diverts rest)"
  by pat_completeness auto
termination
  by (relation "measure (\<lambda>x. case x of Inl n \<Rightarrow> size n | Inr ns \<Rightarrow> size_list size ns)")
    (auto simp: less_Suc_eq_le intro: trans_le_add2 size_statements_of_block)

text \<open>
  The tree after dead-code removal: the branches of an \<^verbatim>\<open>if\<close> and the body of a \<^verbatim>\<open>while\<close>
  are cleaned, and the statement list of a block is cut after its first diverting
  statement.
\<close>

function cleaned :: "node \<Rightarrow> node"
and cleaned_statements :: "node list \<Rightarrow> node list" where
  "cleaned Null = Null"
| "cleaned (Node t d s cs) =
     (case t of
        IF_STATEMENT \<Rightarrow>
         (case cs of
            [c, then_node] \<Rightarrow> Node t d s [c, cleaned then_node]
          | [c, then_node, else_node] \<Rightarrow> Node t d s [c, cleaned then_node, cleaned else_node]
          | _ \<Rightarrow> Node t d s cs)
      | WHILE_STATEMENT \<Rightarrow>
         (case cs of
            [c, body] \<Rightarrow> Node t d s [c, cleaned body]
          | _ \<Rightarrow> Node t d s cs)
      | BLOCK \<Rightarrow>
         Node t d s (with_statements_of_block cs (cleaned_statements (statements_of_block cs)))
      | _ \<Rightarrow> Node t d s cs)"
| "cleaned_statements [] = []"
| "cleaned_statements (statement # rest) =
     (if diverts statement then [cleaned statement]
      else cleaned statement # cleaned_statements rest)"
  by pat_completeness auto
termination
  by (relation "measure (\<lambda>x. case x of Inl n \<Rightarrow> size n | Inr ns \<Rightarrow> size_list size ns)")
    (auto simp: less_Suc_eq_le intro: trans_le_add2 size_statements_of_block)

text \<open>
  The shape the data model gives statements: an \<^verbatim>\<open>if\<close> has two or three children, a
  \<^verbatim>\<open>while\<close> two, and the last child of a block is its statement list.
\<close>

function statement_shape :: "node \<Rightarrow> bool"
and statement_shapes :: "node list \<Rightarrow> bool" where
  "statement_shape Null = True"
| "statement_shape (Node t d s cs) =
     (case t of
        IF_STATEMENT \<Rightarrow>
         (case cs of
            [c, then_node] \<Rightarrow> statement_shape then_node
          | [c, then_node, else_node] \<Rightarrow> statement_shape then_node \<and> statement_shape else_node
          | _ \<Rightarrow> False)
      | WHILE_STATEMENT \<Rightarrow>
         (case cs of
            [c, body] \<Rightarrow> statement_shape body
          | _ \<Rightarrow> False)
      | BLOCK \<Rightarrow>
         cs \<noteq> [] \<and> last cs \<noteq> Null \<and> statement_shapes (statements_of_block cs)
      | _ \<Rightarrow> True)"
| "statement_shapes [] = True"
| "statement_shapes (statement # rest) = (statement_shape statement \<and> statement_shapes rest)"
  by pat_completeness auto
termination
  by (relation "measure (\<lambda>x. case x of Inl n \<Rightarrow> size n | Inr ns \<Rightarrow> size_list size ns)")
    (auto simp: less_Suc_eq_le intro: trans_le_add2 size_statements_of_block)


subsection \<open>Reaching a return\<close>

text \<open>
  \<open>always_returns\<close>: every path through the statement ends in a \<^verbatim>\<open>return\<close> statement
  (a \<^verbatim>\<open>break\<close> is not one). \<open>breaks_in_loops\<close>: no \<^verbatim>\<open>break\<close> stands outside a \<^verbatim>\<open>while\<close>.
  \<open>with_return\<close> is the body the specification gives a function: the cleaned body
  when it diverts, and otherwise the block of the cleaned body and \<^verbatim>\<open>return 0\<close>.
\<close>

function always_returns :: "node \<Rightarrow> bool"
and some_always_returns :: "node list \<Rightarrow> bool" where
  "always_returns Null = False"
| "always_returns (Node t d s cs) =
     (case t of
        RETURN_STATEMENT \<Rightarrow> True
      | IF_STATEMENT \<Rightarrow>
         (case cs of
            [c, then_node, else_node] \<Rightarrow> always_returns then_node \<and> always_returns else_node
          | _ \<Rightarrow> False)
      | BLOCK \<Rightarrow> some_always_returns (statements_of_block cs)
      | _ \<Rightarrow> False)"
| "some_always_returns [] = False"
| "some_always_returns (statement # rest) =
     (always_returns statement \<or> some_always_returns rest)"
  by pat_completeness auto
termination
  by (relation "measure (\<lambda>x. case x of Inl n \<Rightarrow> size n | Inr ns \<Rightarrow> size_list size ns)")
    (auto simp: less_Suc_eq_le intro: trans_le_add2 size_statements_of_block)

function breaks_in_loops :: "node \<Rightarrow> bool"
and all_breaks_in_loops :: "node list \<Rightarrow> bool" where
  "breaks_in_loops Null = True"
| "breaks_in_loops (Node t d s cs) =
     (case t of
        BREAK_STATEMENT \<Rightarrow> False
      | IF_STATEMENT \<Rightarrow>
         (case cs of
            [c, then_node] \<Rightarrow> breaks_in_loops then_node
          | [c, then_node, else_node] \<Rightarrow> breaks_in_loops then_node \<and> breaks_in_loops else_node
          | _ \<Rightarrow> True)
      | BLOCK \<Rightarrow> all_breaks_in_loops (statements_of_block cs)
      | _ \<Rightarrow> True)"
| "all_breaks_in_loops [] = True"
| "all_breaks_in_loops (statement # rest) =
     (breaks_in_loops statement \<and> all_breaks_in_loops rest)"
  by pat_completeness auto
termination
  by (relation "measure (\<lambda>x. case x of Inl n \<Rightarrow> size n | Inr ns \<Rightarrow> size_list size ns)")
    (auto simp: less_Suc_eq_le intro: trans_le_add2 size_statements_of_block)

definition with_return :: "node \<Rightarrow> node" where
  "with_return body =
     (if diverts body then cleaned body else return_zero_block (cleaned body))"

fun function_with_return :: "node \<Rightarrow> node" where
  "function_with_return (Node FUNCTION d s cs) = Node FUNCTION d s (cs[2 := with_return (cs ! 2)])"
| "function_with_return n = n"

fun function_shape :: "node \<Rightarrow> bool" where
  "function_shape Null = False"
| "function_shape (Node FUNCTION d s cs) = (3 \<le> length cs \<and> statement_shape (cs ! 2))"
| "function_shape n = True"



subsection \<open>Declaration order\<close>

text \<open>
  The names a function declares, in the order of the program text: its parameters from
  left to right, then the local variables of its body, each block's declarations before
  the declarations of the blocks nested in it, and sibling blocks one after the other.
  A block with two children holds its declarations (a list of lists of identifiers) as
  its first child.
\<close>

fun name_of :: "node \<Rightarrow> string" where
  "name_of (Node t (Identifier x) s cs) = x"
| "name_of n = []"

fun children :: "node \<Rightarrow> node list" where
  "children Null = []"
| "children (Node t d s cs) = cs"

definition declaration_names :: "node \<Rightarrow> string list" where
  "declaration_names declarations =
     concat (map (\<lambda>identifier_list. map name_of (children identifier_list))
               (children declarations))"

function declared_names :: "node \<Rightarrow> string list"
and declared_names_children :: "node list \<Rightarrow> string list" where
  "declared_names Null = []"
| "declared_names (Node t d s cs) =
     (case t of
        BLOCK \<Rightarrow>
         (if length cs = 2
          then declaration_names (cs ! 0) @ declared_names_children (drop 1 cs)
          else declared_names_children cs)
      | IDENTIFIER \<Rightarrow> []
      | STRING_LITERAL \<Rightarrow> []
      | _ \<Rightarrow> declared_names_children cs)"
| "declared_names_children [] = []"
| "declared_names_children (c # cs) = declared_names c @ declared_names_children cs"
  by pat_completeness auto
termination
  by (relation "measure (\<lambda>x. case x of Inl n \<Rightarrow> size n | Inr ns \<Rightarrow> size_list size ns)")
    (auto simp: less_Suc_eq_le intro: le_trans [OF size_list_drop_le])

definition parameter_names :: "node \<Rightarrow> string list" where
  "parameter_names function_node = map name_of (children (children function_node ! 1))"

definition body_of_function :: "node \<Rightarrow> node" where
  "body_of_function function_node = children function_node ! 2"

text \<open>
  A table read as the list of its symbols' names, kinds and sequence numbers, and the
  list that numbers names of one kind from \<open>k\<close> on.
\<close>

definition table_entries :: "symbol_table \<Rightarrow> (string \<times> symtype \<times> nat) list" where
  "table_entries table =
     map (\<lambda>smb. (sname smb, stype smb, symbol_sequence_number smb)) (symbols table)"

definition numbered :: "nat \<Rightarrow> symtype \<Rightarrow> string list \<Rightarrow> (string \<times> symtype \<times> nat) list" where
  "numbered k ty names = map (\<lambda>(i, name). (name, ty, i)) (enumerate k names)"

subsection \<open>Scopes\<close>

text \<open>
  A declaration list of the data model's shape: a list of lists of identifier nodes.
  \<open>entries_of\<close> and \<open>backup_of\<close> read the two fields of a scope map.
\<close>

fun identifier_shape :: "node \<Rightarrow> bool" where
  "identifier_shape (Node t (Identifier x) s cs) = True"
| "identifier_shape n = False"

definition declaration_shape :: "node \<Rightarrow> bool" where
  "declaration_shape declarations =
     (declarations \<noteq> Null \<and>
      list_all (\<lambda>identifier_list.
                  identifier_list \<noteq> Null \<and> list_all identifier_shape (children identifier_list))
        (children declarations))"

text \<open>The statement list that holds the one assignment \<^verbatim>\<open>name := v\<close>.\<close>

definition assignment_to :: "string \<Rightarrow> symbol option \<Rightarrow> 64 word \<Rightarrow> node" where
  "assignment_to name bound v =
     Node LIST No_Data None
       [Node ASSIGNMENT_STATEMENT No_Data None
          [Node IDENTIFIER (Identifier name) bound [], literal v]]"

fun entries_of :: "symbol_hashmap \<Rightarrow> string \<Rightarrow> symbol option" where
  "entries_of (Hashmap m b) = m"

fun backup_of :: "symbol_hashmap \<Rightarrow> symbol_hashmap option" where
  "backup_of (Hashmap m b) = b"

text \<open>
  Binding as the specification describes it, over an environment instead of a chain of
  hash maps. The environment maps each visible name to its symbol. A block with
  declarations extends it for its own statements: every declared name maps to the
  block's new local-variable symbol, numbered from the table's length on, and overrides
  what the enclosing scopes hold for that name; every other name keeps the symbol of the
  enclosing scopes. Two equal names among one block's declarations, and an identifier
  with no symbol in the environment, are the two failures (\<open>None\<close>). The statements after
  the block see the environment from before it. The result is the table's symbol list,
  the string list and the bound tree.
\<close>

definition new_symbols :: "node \<Rightarrow> nat \<Rightarrow> string list \<Rightarrow> symbol list" where
  "new_symbols block k names =
     map (\<lambda>(i, name). Symbol SYMBOL_LOCAL_VAR name block i) (enumerate k names)"

definition block_scope ::
  "(string \<Rightarrow> symbol option) \<Rightarrow> node \<Rightarrow> nat \<Rightarrow> string list \<Rightarrow> string \<Rightarrow> symbol option" where
  "block_scope env block k names = env ++ map_of (zip names (new_symbols block k names))"

fun text_of :: "node \<Rightarrow> string" where
  "text_of (Node t (String_Literal x) s cs) = x"
| "text_of n = []"

function env_bind ::
  "(string \<Rightarrow> symbol option) \<Rightarrow> symbol list \<Rightarrow> string list \<Rightarrow> node
     \<Rightarrow> (symbol list \<times> string list \<times> node) option"
and env_bind_children ::
  "(string \<Rightarrow> symbol option) \<Rightarrow> symbol list \<Rightarrow> string list \<Rightarrow> node list
     \<Rightarrow> (symbol list \<times> string list \<times> node list) option" where
  "env_bind env syms strs Null = Some (syms, strs, Null)"
| "env_bind env syms strs (Node t d s cs) =
     (case t of
        BLOCK \<Rightarrow>
         (if length cs = 2 then
            (if \<not> distinct (declaration_names (cs ! 0)) then None
             else
               (case env_bind_children
                       (block_scope env (Node t d s cs) (length syms)
                          (declaration_names (cs ! 0)))
                       (syms @ new_symbols (Node t d s cs) (length syms)
                                 (declaration_names (cs ! 0)))
                       strs (drop 1 cs) of
                  None \<Rightarrow> None
                | Some (syms', strs', cs') \<Rightarrow> Some (syms', strs', Node t d s (take 1 cs @ cs'))))
          else
            (case env_bind_children env syms strs cs of
               None \<Rightarrow> None
             | Some (syms', strs', cs') \<Rightarrow> Some (syms', strs', Node t d s cs')))
      | IDENTIFIER \<Rightarrow>
         (case env (name_of (Node t d s cs)) of
            None \<Rightarrow> None
          | Some smb \<Rightarrow> Some (syms, strs, Node t d (Some smb) cs))
      | STRING_LITERAL \<Rightarrow>
         Some (syms, strs @ [text_of (Node t d s cs)],
               Node STRING_LIST_REFERENCE (String_List_Index (length strs)) s cs)
      | _ \<Rightarrow>
         (case env_bind_children env syms strs cs of
            None \<Rightarrow> None
          | Some (syms', strs', cs') \<Rightarrow> Some (syms', strs', Node t d s cs')))"
| "env_bind_children env syms strs [] = Some (syms, strs, [])"
| "env_bind_children env syms strs (c # cs) =
     (case env_bind env syms strs c of
        None \<Rightarrow> None
      | Some (syms', strs', c') \<Rightarrow>
         (case env_bind_children env syms' strs' cs of
            None \<Rightarrow> None
          | Some (syms'', strs'', cs') \<Rightarrow> Some (syms'', strs'', c' # cs')))"
  by pat_completeness auto
termination
  by (relation "measure (\<lambda>x. case x of Inl (env, syms, strs, n) \<Rightarrow> size n
                                   | Inr (env, syms, strs, ns) \<Rightarrow> size_list size ns)")
    (auto simp: less_Suc_eq_le intro: le_trans [OF size_list_drop_le])

text \<open>
  A tree of the data model's shape, as far as binding reads it: a block with two children
  holds a declaration list first, an identifier node holds a name and a string literal
  node holds a string.
\<close>

fun string_shape :: "node \<Rightarrow> bool" where
  "string_shape (Node t (String_Literal x) s cs) = True"
| "string_shape n = False"

function binding_shape :: "node \<Rightarrow> bool"
and binding_shapes :: "node list \<Rightarrow> bool" where
  "binding_shape Null = True"
| "binding_shape (Node t d s cs) =
     (case t of
        BLOCK \<Rightarrow>
         (if length cs = 2 then declaration_shape (cs ! 0) \<and> binding_shapes (drop 1 cs)
          else binding_shapes cs)
      | IDENTIFIER \<Rightarrow> identifier_shape (Node t d s cs)
      | STRING_LITERAL \<Rightarrow> string_shape (Node t d s cs)
      | _ \<Rightarrow> binding_shapes cs)"
| "binding_shapes [] = True"
| "binding_shapes (c # cs) = (binding_shape c \<and> binding_shapes cs)"
  by pat_completeness auto
termination
  by (relation "measure (\<lambda>x. case x of Inl n \<Rightarrow> size n | Inr ns \<Rightarrow> size_list size ns)")
    (auto simp: less_Suc_eq_le intro: le_trans [OF size_list_drop_le])

text \<open>
  The state after a binding that succeeds: the table's symbol list and the string list
  are the new ones and the scope map is the one from before. A failure of the
  specification is the fatal exit of the code.
\<close>

definition bound_state :: "bind_state \<Rightarrow> symbol list \<Rightarrow> string list \<Rightarrow> bind_state" where
  "bound_state st syms strs =
     st\<lparr>local_symbols := (local_symbols st)\<lparr>symbols := syms\<rparr>, string_list := strs\<rparr>"

definition binding_result ::
  "bind_state \<Rightarrow> (symbol list \<times> string list \<times> 'a) option \<Rightarrow> fault + (bind_state \<times> 'a)" where
  "binding_result st r =
     (case r of
        None \<Rightarrow> Inl Exit_Failure
      | Some (syms, strs, n) \<Rightarrow> Inr (bound_state st syms strs, n))"



subsection \<open>Example programs\<close>

text \<open>A table as \<^verbatim>\<open>symbol_table_init\<close> leaves it, and no strings yet.\<close>

definition empty_state :: bind_state where
  "empty_state =
     \<lparr>local_symbols = \<lparr>symbols = [], hashmap = symbol_hashmap_init\<rparr>, string_list = []\<rparr>"

text \<open>\<^verbatim>\<open>func f() begin var x  x := 1  return x end\<close>, before and after binding.\<close>

definition one_local_block :: node where
  "one_local_block =
     Node BLOCK No_Data None
       [Node LIST No_Data None
          [Node LIST No_Data None [Node IDENTIFIER (Identifier ''x'') None []]],
        Node LIST No_Data None
          [Node ASSIGNMENT_STATEMENT No_Data None
             [Node IDENTIFIER (Identifier ''x'') None [], literal 1],
           Node RETURN_STATEMENT No_Data None [Node IDENTIFIER (Identifier ''x'') None []]]]"

definition one_local_function :: node where
  "one_local_function =
     Node FUNCTION No_Data None
       [Node IDENTIFIER (Identifier ''f'') None [], Node LIST No_Data None [], one_local_block]"

definition local_x :: symbol where
  "local_x = Symbol SYMBOL_LOCAL_VAR ''x'' one_local_block 0"

definition one_local_function_bound :: node where
  "one_local_function_bound =
     Node FUNCTION No_Data None
       [Node IDENTIFIER (Identifier ''f'') None [],
        Node LIST No_Data None [],
        Node BLOCK No_Data None
          [Node LIST No_Data None
             [Node LIST No_Data None [Node IDENTIFIER (Identifier ''x'') None []]],
           Node LIST No_Data None
             [Node ASSIGNMENT_STATEMENT No_Data None
                [Node IDENTIFIER (Identifier ''x'') (Some local_x) [], literal 1],
              Node RETURN_STATEMENT No_Data None
                [Node IDENTIFIER (Identifier ''x'') (Some local_x) []]]]]"

text \<open>\<^verbatim>\<open>x := g()\<close> for a global \<^verbatim>\<open>x\<close> and a function \<^verbatim>\<open>g\<close> without parameters, bound.\<close>

definition callee_symbol :: symbol where
  "callee_symbol =
     Symbol SYMBOL_FUNCTION ''g''
       (Node FUNCTION No_Data None
          [Node IDENTIFIER (Identifier ''g'') None [],
           Node LIST No_Data None [],
           Node BLOCK No_Data None
             [Node LIST No_Data None [Node RETURN_STATEMENT No_Data None [literal 7]]]])
       1"

definition global_x :: symbol where
  "global_x =
     Symbol SYMBOL_GLOBAL_VAR ''x'' (Node IDENTIFIER (Identifier ''x'') None []) 0"

definition assignment_of_call :: node where
  "assignment_of_call =
     Node ASSIGNMENT_STATEMENT No_Data None
       [Node IDENTIFIER (Identifier ''x'') (Some global_x) [],
        Node FUNCTION_CALL No_Data None
          [Node IDENTIFIER (Identifier ''g'') (Some callee_symbol) [],
           Node LIST No_Data None []]]"

text \<open>Three functions without parameters: only a print; a return before a print; only a break.\<close>

definition print_only_function :: node where
  "print_only_function =
     Node FUNCTION No_Data None
       [Node IDENTIFIER (Identifier ''f'') None [],
        Node LIST No_Data None [],
        Node BLOCK No_Data None
          [Node LIST No_Data None
             [Node PRINT_STATEMENT No_Data None [Node LIST No_Data None [literal 2]]]]]"

definition return_then_print_function :: node where
  "return_then_print_function =
     Node FUNCTION No_Data None
       [Node IDENTIFIER (Identifier ''g'') None [],
        Node LIST No_Data None [],
        Node BLOCK No_Data None
          [Node LIST No_Data None
             [Node RETURN_STATEMENT No_Data None [literal 1],
              Node PRINT_STATEMENT No_Data None [Node LIST No_Data None [literal 2]]]]]"

definition break_only_function :: node where
  "break_only_function =
     Node FUNCTION No_Data None
       [Node IDENTIFIER (Identifier ''h'') None [],
        Node LIST No_Data None [],
        Node BLOCK No_Data None
          [Node LIST No_Data None [Node BREAK_STATEMENT No_Data None []]]]"

text \<open>
  A declaration list with one list of names;
  \<^verbatim>\<open>func f(a) begin begin var x  x := a end  begin var x  x := 1 end end\<close>; and a state
  whose scope holds a parameter \<^verbatim>\<open>x\<close>.
\<close>

definition declaration_of :: "string list \<Rightarrow> node" where
  "declaration_of names =
     Node LIST No_Data None
       [Node LIST No_Data None (map (\<lambda>name. Node IDENTIFIER (Identifier name) None []) names)]"

definition sibling_blocks_function :: node where
  "sibling_blocks_function =
     Node FUNCTION No_Data None
       [Node IDENTIFIER (Identifier ''f'') None [],
        Node LIST No_Data None [Node IDENTIFIER (Identifier ''a'') None []],
        Node BLOCK No_Data None
          [Node LIST No_Data None
             [Node BLOCK No_Data None
                [declaration_of [''x''],
                 Node LIST No_Data None
                   [Node ASSIGNMENT_STATEMENT No_Data None
                      [Node IDENTIFIER (Identifier ''x'') None [],
                       Node IDENTIFIER (Identifier ''a'') None []]]],
              Node BLOCK No_Data None
                [declaration_of [''x''],
                 Node LIST No_Data None
                   [Node ASSIGNMENT_STATEMENT No_Data None
                      [Node IDENTIFIER (Identifier ''x'') None [],
                       Node NUMBER_LITERAL (Number_Literal 1) None []]]]]]]"

definition outer_x :: symbol where
  "outer_x = Symbol SYMBOL_PARAMETER ''x'' (Node IDENTIFIER (Identifier ''x'') None []) 0"

definition outer_x_state :: bind_state where
  "outer_x_state =
     \<lparr>local_symbols =
        \<lparr>symbols = [outer_x],
         hashmap = Hashmap ((\<lambda>name. None)(''x'' \<mapsto> outer_x)) None\<rparr>,
      string_list = []\<rparr>"

text \<open>
  Under a parameter \<^verbatim>\<open>x\<close>, the block
  \<^verbatim>\<open>begin var x  begin var x  x := 1 end  begin x := 2 end  x := 3 end\<close> and its first
  nested block.
\<close>

definition inner_x_block :: node where
  "inner_x_block = Node BLOCK No_Data None [declaration_of [''x''], assignment_to ''x'' None 1]"

definition shadowing_block :: node where
  "shadowing_block =
     Node BLOCK No_Data None
       [declaration_of [''x''],
        Node LIST No_Data None
          [inner_x_block,
           Node BLOCK No_Data None [assignment_to ''x'' None 2],
           Node ASSIGNMENT_STATEMENT No_Data None
             [Node IDENTIFIER (Identifier ''x'') None [], literal 3]]]"

section \<open>Constant folding: theorems\<close>

lemma constant_fold_children_Cons:
  "constant_fold_children (c # cs) =
     (case constant_fold_subtree c of
        Inl e \<Rightarrow> Inl e
      | Inr folded_child \<Rightarrow>
         (case constant_fold_children cs of
            Inl e \<Rightarrow> Inl e
          | Inr cs' \<Rightarrow> Inr (folded_child # cs')))"
  by (cases c) simp_all

lemma constant_fold_subtree_literal:
  "constant_fold_subtree (literal v) = Inr (literal v)"
  by (simp add: literal_def)

text \<open>
  Claim C2, at the input that refutes it in the code. The claim gives the folded literal
  the operator's 64-bit value for all 64-bit operands. The operator functions take
  \<^verbatim>\<open>int\<close> parameters, so the operands lose their upper 32 bits before the operator is
  applied: \<^verbatim>\<open>4294967296 + 1\<close> folds to the literal \<^verbatim>\<open>1\<close>, where 64-bit addition gives
  \<^verbatim>\<open>4294967297\<close>, and \<^verbatim>\<open>!4294967296\<close> folds to \<^verbatim>\<open>1\<close>, where logical not gives \<^verbatim>\<open>0\<close>.
\<close>

theorem constant_fold_operator_truncates:
  "constant_fold_operator
     (Node OPERATOR (Operator ''+'') None [literal 4294967296, literal 1]) = Inr (literal 1)
   \<and> spec_fold_value ''+'' [4294967296, 1] = Some 4294967297
   \<and> constant_fold_operator
       (Node OPERATOR (Operator ''!'') None [literal 4294967296]) = Inr (literal 1)
   \<and> spec_fold_value ''!'' [4294967296] = Some 0"
  by (simp add: literal_def child_def get_operator_func_def operator_to_func_table_def
      call_operation_func_def add_def not_int_def of_bool32_def to_int_def of_int32_def
      in_int_range_def spec_fold_value_def spec_truth_def)

text \<open>
  Claim C8. An \<^verbatim>\<open>if\<close> node whose condition child is (after the folding of the children) a
  number literal is replaced by the folded then-branch when the literal is not zero, by
  the folded else-branch when the literal is zero and there is an else-branch, and by
  the null placeholder when the literal is zero and there is no else-branch. The result
  holds nothing of the branch that is not taken.
\<close>

theorem constant_fold_if_literal:
  assumes "constant_fold_subtree c = Inr (Node NUMBER_LITERAL (Number_Literal v) sc ccs)"
    and "constant_fold_subtree then_node = Inr then_node'"
    and "constant_fold_children rest = Inr rest'"
  shows "constant_fold_subtree (Node IF_STATEMENT d s (c # then_node # rest)) =
           Inr (if v \<noteq> 0 then then_node'
                else case rest' of [] \<Rightarrow> Null | else_node # others \<Rightarrow> else_node)"
  using assms
  by (simp add: constant_fold_children_Cons child_def del: constant_fold_children.simps
      split: list.splits)

theorem constant_fold_if_literal_witness:
  "constant_fold_subtree
     (Node IF_STATEMENT No_Data None
        [literal 0,
         Node PRINT_STATEMENT No_Data None [Node LIST No_Data None [literal 1]],
         Node PRINT_STATEMENT No_Data None [Node LIST No_Data None [literal 2]]])
   = Inr (Node PRINT_STATEMENT No_Data None [Node LIST No_Data None [literal 2]])
   \<and> constant_fold_subtree
     (Node IF_STATEMENT No_Data None
        [literal 0,
         Node PRINT_STATEMENT No_Data None [Node LIST No_Data None [literal 1]]])
   = Inr Null
   \<and> constant_fold_subtree
     (Node IF_STATEMENT No_Data None
        [Node OPERATOR (Operator ''-'') None [literal 3, literal 2],
         Node PRINT_STATEMENT No_Data None [Node LIST No_Data None [literal 1]]])
   = Inr (Node PRINT_STATEMENT No_Data None [Node LIST No_Data None [literal 1]])"
proof -
  let ?p1 = "Node PRINT_STATEMENT No_Data None [Node LIST No_Data None [literal 1]]"
  let ?p2 = "Node PRINT_STATEMENT No_Data None [Node LIST No_Data None [literal 2]]"
  have p1: "constant_fold_subtree ?p1 = Inr ?p1"
    by (simp add: literal_def)
  have p2: "constant_fold_subtree ?p2 = Inr ?p2"
    by (simp add: literal_def)
  have l0: "constant_fold_subtree (literal 0) = Inr (Node NUMBER_LITERAL (Number_Literal 0) None [])"
    by (simp add: literal_def)
  have sub: "constant_fold_subtree (Node OPERATOR (Operator ''-'') None [literal 3, literal 2])
      = Inr (Node NUMBER_LITERAL (Number_Literal 1) None [])"
    by (simp add: literal_def child_def get_operator_func_def operator_to_func_table_def
        call_operation_func_def subtract_def to_int_def of_int32_def in_int_range_def)
  have r2: "constant_fold_children [?p2] = Inr [?p2]"
    by (simp add: literal_def)
  have r0: "constant_fold_children [] = Inr []"
    by simp
  show ?thesis
    using constant_fold_if_literal [OF l0 p1 r2, of No_Data None]
      constant_fold_if_literal [OF l0 p1 r0, of No_Data None]
      constant_fold_if_literal [OF sub p1 r0, of No_Data None]
    by simp
qed

text \<open>
  Claim C9. A \<^verbatim>\<open>while\<close> node whose condition child is (after the folding of the children)
  a number literal is replaced by the null placeholder when the literal is zero, and
  stays a \<^verbatim>\<open>while\<close> node over its folded children when the literal is not zero.
\<close>

theorem constant_fold_while_literal:
  assumes "constant_fold_subtree c = Inr (Node NUMBER_LITERAL (Number_Literal v) sc ccs)"
    and "constant_fold_children rest = Inr rest'"
  shows "constant_fold_subtree (Node WHILE_STATEMENT d s (c # rest)) =
           Inr (if v = 0 then Null
                else Node WHILE_STATEMENT d s
                       (Node NUMBER_LITERAL (Number_Literal v) sc ccs # rest'))"
  using assms
  by (simp add: constant_fold_children_Cons child_def del: constant_fold_children.simps)

theorem constant_fold_while_literal_witness:
  "constant_fold_subtree
     (Node WHILE_STATEMENT No_Data None
        [literal 0, Node PRINT_STATEMENT No_Data None [Node LIST No_Data None [literal 1]]])
   = Inr Null
   \<and> constant_fold_subtree
     (Node WHILE_STATEMENT No_Data None [literal 1, Node BREAK_STATEMENT No_Data None []])
   = Inr (Node WHILE_STATEMENT No_Data None
            [literal 1, Node BREAK_STATEMENT No_Data None []])"
proof -
  let ?p1 = "Node PRINT_STATEMENT No_Data None [Node LIST No_Data None [literal 1]]"
  let ?b = "Node BREAK_STATEMENT No_Data None []"
  have l0: "constant_fold_subtree (literal 0) = Inr (Node NUMBER_LITERAL (Number_Literal 0) None [])"
    by (simp add: literal_def)
  have l1: "constant_fold_subtree (literal 1) = Inr (Node NUMBER_LITERAL (Number_Literal 1) None [])"
    by (simp add: literal_def)
  have r1: "constant_fold_children [?p1] = Inr [?p1]"
    by (simp add: literal_def)
  have rb: "constant_fold_children [?b] = Inr [?b]"
    by simp
  show ?thesis
    using constant_fold_while_literal [OF l0 r1, of No_Data None]
      constant_fold_while_literal [OF l1 rb, of No_Data None]
    by (simp add: literal_def)
qed

section \<open>Unreachable code: theorems\<close>

lemma block_last:
  "cs \<noteq> [] \<Longrightarrow> last cs \<noteq> Null \<Longrightarrow>
   child cs (length cs - 1) = Inr (last cs) \<and>
   children_of (last cs) = Inr (statements_of_block cs)"
  by (cases "last cs") (auto simp: child_def last_conv_nth statements_of_block_def)



lemma ruc_if2:
  assumes "statement_shape a \<longrightarrow> remove_unreachable_code a = Inr (diverts a, cleaned a)"
    and "statement_shape (Node IF_STATEMENT d s [c, a])"
  shows "remove_unreachable_code (Node IF_STATEMENT d s [c, a])
     = Inr (diverts (Node IF_STATEMENT d s [c, a]), cleaned (Node IF_STATEMENT d s [c, a]))"
  using assms by (simp add: child_def)



lemma ruc_if3:
  assumes "statement_shape a \<longrightarrow> remove_unreachable_code a = Inr (diverts a, cleaned a)"
    and "statement_shape b \<longrightarrow> remove_unreachable_code b = Inr (diverts b, cleaned b)"
    and "statement_shape (Node IF_STATEMENT d s [c, a, b])"
  shows "remove_unreachable_code (Node IF_STATEMENT d s [c, a, b])
     = Inr (diverts (Node IF_STATEMENT d s [c, a, b]), cleaned (Node IF_STATEMENT d s [c, a, b]))"
  using assms by (simp add: child_def)

lemma ruc_while:
  assumes "statement_shape a \<longrightarrow> remove_unreachable_code a = Inr (diverts a, cleaned a)"
    and "statement_shape (Node WHILE_STATEMENT d s [c, a])"
  shows "remove_unreachable_code (Node WHILE_STATEMENT d s [c, a])
     = Inr (diverts (Node WHILE_STATEMENT d s [c, a]), cleaned (Node WHILE_STATEMENT d s [c, a]))"
  using assms by (simp add: child_def)

lemma ruc_block:
  assumes "statement_shapes (statements_of_block cs) \<longrightarrow>
      remove_unreachable_statements (statements_of_block cs)
        = Inr (some_diverts (statements_of_block cs), cleaned_statements (statements_of_block cs))"
    and "statement_shape (Node BLOCK d s cs)"
  shows "remove_unreachable_code (Node BLOCK d s cs)
     = Inr (diverts (Node BLOCK d s cs), cleaned (Node BLOCK d s cs))"
proof -
  from assms(2) have ne: "cs \<noteq> []" "last cs \<noteq> Null"
    and shapes: "statement_shapes (statements_of_block cs)"
    by simp_all
  from block_last [OF ne] assms(1) shapes show ?thesis
    by (simp add: with_statements_of_block_def)
qed

lemma if_shape_cases:
  assumes "statement_shape (Node IF_STATEMENT d s cs)"
  obtains c a where "cs = [c, a]" | c a b where "cs = [c, a, b]"
  using assms by (auto split: list.splits)

lemma while_shape_cases:
  assumes "statement_shape (Node WHILE_STATEMENT d s cs)"
  obtains c a where "cs = [c, a]"
  using assms by (auto split: list.splits)

lemma ruc_correct:
  "statement_shape n \<longrightarrow> remove_unreachable_code n = Inr (diverts n, cleaned n)"
  "statement_shapes ns \<longrightarrow>
      remove_unreachable_statements ns = Inr (some_diverts ns, cleaned_statements ns)"
proof (induction n and ns rule: remove_unreachable_code_remove_unreachable_statements.induct)
  case 1
  show ?case by simp
next
  case (2 t d s cs)
  show ?case
  proof
    assume shape: "statement_shape (Node t d s cs)"
    show "remove_unreachable_code (Node t d s cs)
        = Inr (diverts (Node t d s cs), cleaned (Node t d s cs))"
    proof (cases t)
      case IF_STATEMENT
      from shape IF_STATEMENT have "statement_shape (Node IF_STATEMENT d s cs)"
        by simp
      then show ?thesis
      proof (cases rule: if_shape_cases)
        case (1 c a)
        have "statement_shape a \<longrightarrow> remove_unreachable_code a = Inr (diverts a, cleaned a)"
          using "2.IH"(2) [of a] IF_STATEMENT 1 by (simp add: child_def)
        with shape IF_STATEMENT 1 show ?thesis
          using ruc_if2 by blast
      next
        case (2 c a b)
        have a: "statement_shape a \<longrightarrow> remove_unreachable_code a = Inr (diverts a, cleaned a)"
          using "2.IH"(3) [of a] IF_STATEMENT 2 by (simp add: child_def)
        have "statement_shape b \<longrightarrow> remove_unreachable_code b = Inr (diverts b, cleaned b)"
        proof
          assume "statement_shape b"
          from shape IF_STATEMENT 2 have "statement_shape a" by simp
          with a have ra: "remove_unreachable_code a = Inr (diverts a, cleaned a)" by simp
          show "remove_unreachable_code b = Inr (diverts b, cleaned b)"
            using "2.IH"(4) [of a "(diverts a, cleaned a)" "diverts a" "cleaned a" b]
              IF_STATEMENT 2 ra \<open>statement_shape b\<close>
            by (simp add: child_def)
        qed
        with a shape IF_STATEMENT 2 show ?thesis
          using ruc_if3 by blast
      qed
    next
      case WHILE_STATEMENT
      from shape WHILE_STATEMENT have "statement_shape (Node WHILE_STATEMENT d s cs)"
        by simp
      then show ?thesis
      proof (cases rule: while_shape_cases)
        case (1 c a)
        have "statement_shape a \<longrightarrow> remove_unreachable_code a = Inr (diverts a, cleaned a)"
          using "2.IH"(5) [of a] WHILE_STATEMENT 1 by (simp add: child_def)
        with shape WHILE_STATEMENT 1 show ?thesis
          using ruc_while by blast
      qed
    next
      case BLOCK
      from shape BLOCK have ne: "cs \<noteq> []" "last cs \<noteq> Null" by simp_all
      have "statement_shapes (statements_of_block cs) \<longrightarrow>
        remove_unreachable_statements (statements_of_block cs)
          = Inr (some_diverts (statements_of_block cs), cleaned_statements (statements_of_block cs))"
        using "2.IH"(1) [of "last cs" "statements_of_block cs"] BLOCK block_last [OF ne]
        by simp
      with shape BLOCK show ?thesis
        using ruc_block by blast
    qed simp_all
  qed
next
  case 3
  show ?case by simp
next
  case (4 statement rest)
  show ?case
  proof
    assume shapes: "statement_shapes (statement # rest)"
    then have s: "remove_unreachable_code statement = Inr (diverts statement, cleaned statement)"
      using "4.IH"(1) by simp
    show "remove_unreachable_statements (statement # rest)
        = Inr (some_diverts (statement # rest), cleaned_statements (statement # rest))"
    proof (cases "diverts statement")
      case True
      with s show ?thesis by simp
    next
      case False
      have "remove_unreachable_statements rest = Inr (some_diverts rest, cleaned_statements rest)"
        using "4.IH"(2) [of "(False, cleaned statement)" False "cleaned statement"] s False shapes
        by simp
      with s False show ?thesis by simp
    qed
  qed
qed

lemma some_diverts_list_ex: "some_diverts ns = list_ex diverts ns"
  by (induction ns) simp_all

lemma cleaned_statements_takeWhile:
  "cleaned_statements ns =
     map cleaned (takeWhile (\<lambda>x. \<not> diverts x) ns @ take 1 (dropWhile (\<lambda>x. \<not> diverts x) ns))"
  by (induction ns) simp_all

text \<open>
  Claim C5. On a statement of the data model's shape the unreachable-code pass returns
  true exactly when the statement diverts by the specification's rules (\<open>diverts\<close>), and
  leaves the cleaned tree (\<open>cleaned\<close>). For the statement list of a block that is: the
  block diverts when one of its statements does, and its list is cut after the first
  diverting statement, the statements up to and including it cleaned.
\<close>

theorem remove_unreachable_code_refines:
  assumes "statement_shape n"
  shows "remove_unreachable_code n = Inr (diverts n, cleaned n)
         \<and> some_diverts ns = list_ex diverts ns
         \<and> cleaned_statements ns =
             map cleaned (takeWhile (\<lambda>x. \<not> diverts x) ns
                          @ take 1 (dropWhile (\<lambda>x. \<not> diverts x) ns))"
  using assms ruc_correct(1) [of n] some_diverts_list_ex cleaned_statements_takeWhile
  by blast

theorem remove_unreachable_code_refines_witness:
  "remove_unreachable_code
     (Node BLOCK No_Data None
        [Node LIST No_Data None
           [Node PRINT_STATEMENT No_Data None [Node LIST No_Data None [literal 3]],
            Node IF_STATEMENT No_Data None
              [Node IDENTIFIER (Identifier ''a'') None [],
               Node RETURN_STATEMENT No_Data None [literal 1],
               Node BLOCK No_Data None
                 [Node LIST No_Data None
                    [Node BREAK_STATEMENT No_Data None [],
                     Node PRINT_STATEMENT No_Data None [Node LIST No_Data None [literal 4]]]]],
            Node PRINT_STATEMENT No_Data None [Node LIST No_Data None [literal 2]]]])
   = Inr (True,
       Node BLOCK No_Data None
        [Node LIST No_Data None
           [Node PRINT_STATEMENT No_Data None [Node LIST No_Data None [literal 3]],
            Node IF_STATEMENT No_Data None
              [Node IDENTIFIER (Identifier ''a'') None [],
               Node RETURN_STATEMENT No_Data None [literal 1],
               Node BLOCK No_Data None
                 [Node LIST No_Data None [Node BREAK_STATEMENT No_Data None []]]]]])"
proof -
  let ?n = "Node BLOCK No_Data None
        [Node LIST No_Data None
           [Node PRINT_STATEMENT No_Data None [Node LIST No_Data None [literal 3]],
            Node IF_STATEMENT No_Data None
              [Node IDENTIFIER (Identifier ''a'') None [],
               Node RETURN_STATEMENT No_Data None [literal 1],
               Node BLOCK No_Data None
                 [Node LIST No_Data None
                    [Node BREAK_STATEMENT No_Data None [],
                     Node PRINT_STATEMENT No_Data None [Node LIST No_Data None [literal 4]]]]],
            Node PRINT_STATEMENT No_Data None [Node LIST No_Data None [literal 2]]]]"
  have shape: "statement_shape ?n"
    by (simp add: statements_of_block_def)
  from remove_unreachable_code_refines [OF shape, of "[]"] show ?thesis
    by (simp add: statements_of_block_def with_statements_of_block_def)
qed

lemma statements_of_block_with:
  "cs \<noteq> [] \<Longrightarrow> last cs \<noteq> Null \<Longrightarrow>
     statements_of_block (with_statements_of_block cs ss) = ss"
  by (cases "last cs")
    (auto simp: statements_of_block_def with_statements_of_block_def last_conv_nth)

lemma statements_of_block_empty:
  "cs = [] \<or> last cs = Null \<Longrightarrow> statements_of_block cs = []"
  by (auto simp: statements_of_block_def)

lemma returns_after_cleaning:
  "breaks_in_loops n \<longrightarrow> diverts n \<longrightarrow> always_returns (cleaned n)"
  "all_breaks_in_loops ns \<longrightarrow> some_diverts ns \<longrightarrow> some_always_returns (cleaned_statements ns)"
proof (induction n and ns rule: cleaned_cleaned_statements.induct)
  case 1
  show ?case by simp
next
  case (2 t d s cs)
  show ?case
  proof (cases t)
    case IF_STATEMENT
    with 2 show ?thesis
      by (auto split: list.splits)
  next
    case BLOCK
    show ?thesis
    proof (cases "cs = [] \<or> last cs = Null")
      case True
      with BLOCK show ?thesis
        by (simp add: statements_of_block_empty)
    next
      case False
      with BLOCK "2.IH"(1) show ?thesis
        by (simp add: statements_of_block_with)
    qed
  qed simp_all
next
  case 3
  show ?case by simp
next
  case (4 statement rest)
  then show ?case by auto
qed


lemma function_with_return_step:
  assumes "function_shape c"
  shows "(case type_of c of
        Inl e \<Rightarrow> Inl e
      | Inr ct \<Rightarrow>
         (case (if ct \<noteq> FUNCTION then Inr c
                else case children_of c of
                  Inl e \<Rightarrow> Inl e
                | Inr fcs \<Rightarrow>
                   (case child fcs 2 of
                      Inl e \<Rightarrow> Inl e
                    | Inr function_body \<Rightarrow>
                       (case remove_unreachable_code function_body of
                          Inl e \<Rightarrow> Inl e
                        | Inr (has_return, function_body') \<Rightarrow>
                           if \<not> has_return
                           then Inr (set_children c (fcs[2 := return_zero_block function_body']))
                           else Inr (set_children c (fcs[2 := function_body']))))) of
            Inl e \<Rightarrow> Inl e
          | Inr c' \<Rightarrow> k c')) = k (function_with_return c)"
proof (cases c)
  case Null
  with assms show ?thesis by simp
next
  case (Node t d s cs)
  show ?thesis
  proof (cases "t = FUNCTION")
    case True
    with assms Node have len: "3 \<le> length cs" and shape: "statement_shape (cs ! 2)"
      by simp_all
    from len have ch: "child cs 2 = Inr (cs ! 2)"
      by (simp add: child_def)
    from ruc_correct(1) shape
    have "remove_unreachable_code (cs ! 2) = Inr (diverts (cs ! 2), cleaned (cs ! 2))"
      by blast
    with Node True ch show ?thesis
      by (simp add: with_return_def)
  next
    case False
    with Node show ?thesis
      by (cases t) simp_all
  qed
qed

lemma remove_unreachable_code_functions_map:
  "list_all function_shape fs \<Longrightarrow>
     remove_unreachable_code_functions fs = Inr (map function_with_return fs)"
proof (induction fs)
  case Nil
  show ?case by simp
next
  case (Cons c fs)
  then have c: "function_shape c"
    and rest: "remove_unreachable_code_functions fs = Inr (map function_with_return fs)"
    by simp_all
  show ?case
    unfolding remove_unreachable_code_functions.simps
    by (subst function_with_return_step [OF c]) (simp add: rest)
qed

lemma always_returns_with_return:
  "breaks_in_loops body \<Longrightarrow> always_returns (with_return body)"
  using returns_after_cleaning(1) [of body]
  by (simp add: with_return_def return_zero_block_def node_create_def statements_of_block_def)

text \<open>
  What the pass does to a program. Every function (of the data model's shape) gets the
  body \<open>with_return\<close> gives it: the cleaned body when the pass reports it as diverting, by
  \<^verbatim>\<open>return\<close> or \<^verbatim>\<open>break\<close>, and otherwise a new block of the cleaned body followed by
  \<^verbatim>\<open>return 0\<close>. When no \<^verbatim>\<open>break\<close> of the body stands outside a loop, every path through the
  new body reaches a \<^verbatim>\<open>return\<close> statement.
\<close>

theorem function_bodies_get_return:
  assumes "list_all function_shape fs"
  shows "remove_unreachable_code_syntax_tree (Node t d s fs)
           = Inr (Node t d s (map function_with_return fs))
         \<and> (breaks_in_loops body \<longrightarrow> always_returns (with_return body))"
  using assms
  by (simp add: remove_unreachable_code_syntax_tree_def remove_unreachable_code_functions_map
      always_returns_with_return)

theorem function_bodies_get_return_witness:
  "remove_unreachable_code_syntax_tree
     (Node LIST No_Data None [print_only_function, return_then_print_function])
   = Inr (Node LIST No_Data None
       [Node FUNCTION No_Data None
          [Node IDENTIFIER (Identifier ''f'') None [],
           Node LIST No_Data None [],
           Node BLOCK No_Data None
             [Node LIST No_Data None
                [Node BLOCK No_Data None
                   [Node LIST No_Data None
                      [Node PRINT_STATEMENT No_Data None [Node LIST No_Data None [literal 2]]]],
                 Node RETURN_STATEMENT No_Data None [literal 0]]]],
        Node FUNCTION No_Data None
          [Node IDENTIFIER (Identifier ''g'') None [],
           Node LIST No_Data None [],
           Node BLOCK No_Data None
             [Node LIST No_Data None [Node RETURN_STATEMENT No_Data None [literal 1]]]]])
   \<and> always_returns
        (with_return
           (Node BLOCK No_Data None
              [Node LIST No_Data None
                 [Node PRINT_STATEMENT No_Data None [Node LIST No_Data None [literal 2]]]]))"
proof -
  have shapes: "list_all function_shape [print_only_function, return_then_print_function]"
    by (simp add: print_only_function_def return_then_print_function_def
        statements_of_block_def)
  have loops: "breaks_in_loops
        (Node BLOCK No_Data None
           [Node LIST No_Data None
              [Node PRINT_STATEMENT No_Data None [Node LIST No_Data None [literal 2]]]])"
    by (simp add: statements_of_block_def)
  from function_bodies_get_return [OF shapes, of LIST No_Data None] loops
  show ?thesis
    by (simp add: print_only_function_def return_then_print_function_def with_return_def
        statements_of_block_def with_statements_of_block_def return_zero_block_def
        node_create_def literal_def)
qed

text \<open>
  Claim C4, at the input where the code departs from it:
  \<^verbatim>\<open>func h() begin break end\<close>. The pass reports the body as diverting, which sets the flag
  the source names \<^verbatim>\<open>has_return\<close>, so the function keeps its body and no \<^verbatim>\<open>return 0\<close> is
  appended, although no path through the body reaches a \<^verbatim>\<open>return\<close> statement. The source's
  comment on the pass says that it ensures that execution never reaches the end of a
  function without reaching a \<^verbatim>\<open>return\<close> statement.
\<close>

theorem break_body_left_without_return:
  "remove_unreachable_code
     (Node BLOCK No_Data None [Node LIST No_Data None [Node BREAK_STATEMENT No_Data None []]])
     = Inr (True,
            Node BLOCK No_Data None
              [Node LIST No_Data None [Node BREAK_STATEMENT No_Data None []]])
   \<and> remove_unreachable_code_syntax_tree (Node LIST No_Data None [break_only_function])
     = Inr (Node LIST No_Data None [break_only_function])
   \<and> \<not> always_returns
        (Node BLOCK No_Data None
           [Node LIST No_Data None [Node BREAK_STATEMENT No_Data None []]])"
  by (simp add: remove_unreachable_code_syntax_tree_def break_only_function_def child_def
      statements_of_block_def)


section \<open>Name binding: theorems\<close>

lemma node_children_induct [case_names Null Node]:
  assumes "P Null"
    and "\<And>t d s cs. (\<And>c. c \<in> set cs \<Longrightarrow> P c) \<Longrightarrow> P (Node t d s cs)"
  shows "P n"
proof (induction n rule: measure_induct_rule [of size])
  case (less n)
  show ?case
  proof (cases n)
    case Null
    with assms(1) show ?thesis by simp
  next
    case (Node t d s cs)
    have "P c" if "c \<in> set cs" for c
    proof -
      from that have "size c \<le> size_list size cs"
        by (rule size_list_estimation') simp
      with Node have "size c < size n" by simp
      then show ?thesis by (rule less.IH)
    qed
    with assms(2) Node show ?thesis by simp
  qed
qed

lemma numbered_Nil [simp]: "numbered k ty [] = []"
  by (simp add: numbered_def)

lemma numbered_Cons [simp]:
  "numbered k ty (name # names) = (name, ty, k) # numbered (Suc k) ty names"
  by (simp add: numbered_def)

lemma length_numbered [simp]: "length (numbered k ty names) = length names"
  by (simp add: numbered_def)

lemma numbered_append:
  "numbered k ty (xs @ ys) = numbered k ty xs @ numbered (k + length xs) ty ys"
  by (induction xs arbitrary: k) simp_all

lemma numbered_sequence:
  "map (\<lambda>(name, ty', q). q) (numbered k ty names) = [k..<k + length names]"
  by (induction names arbitrary: k) (simp_all add: upt_rec)

lemma length_table_entries [simp]: "length (table_entries table) = length (symbols table)"
  by (simp add: table_entries_def)

lemma create_symbol_Some:
  assumes "create_symbol symbol_node name ty table = (Some smb, table')"
  shows "symbols table' = symbols table @ [Symbol ty name symbol_node (length (symbols table))]"
    and "smb = Symbol ty name symbol_node (length (symbols table))"
  using assms
  by (cases "hashmap table";
      auto simp: create_symbol_def symbol_table_insert_def Let_def split: if_splits)+

lemma create_symbol_entries:
  assumes "create_symbol symbol_node name ty table = (Some smb, table')"
  shows "table_entries table' = table_entries table @ [(name, ty, length (symbols table))]"
  using create_symbol_Some(1) [OF assms] by (simp add: table_entries_def)

lemma identifier_name_of: "identifier_of n = Inr name \<Longrightarrow> name_of n = name"
  by (induction n rule: identifier_of.induct) simp_all

lemma children_of_children: "children_of n = Inr cs \<Longrightarrow> children n = cs"
  by (cases n) simp_all

lemma declare_identifiers_entries:
  "declare_identifiers block table ids = Inr table' \<Longrightarrow>
     table_entries table' =
       table_entries table @ numbered (length (symbols table)) SYMBOL_LOCAL_VAR (map name_of ids)"
proof (induction ids arbitrary: table)
  case Nil
  then show ?case by simp
next
  case (Cons i ids)
  from Cons.prems obtain name smb table1
    where name: "identifier_of i = Inr name"
      and made: "create_symbol block name SYMBOL_LOCAL_VAR table = (Some smb, table1)"
      and rest: "declare_identifiers block table1 ids = Inr table'"
    by (auto split: sum.splits prod.splits option.splits)
  from create_symbol_Some(1) [OF made]
  have len: "length (symbols table1) = Suc (length (symbols table))" by simp
  from Cons.IH [OF rest] create_symbol_entries [OF made] len identifier_name_of [OF name]
  show ?case by simp
qed

lemma declare_identifier_lists_entries:
  "declare_identifier_lists block table decls = Inr table' \<Longrightarrow>
     table_entries table' =
       table_entries table
       @ numbered (length (symbols table)) SYMBOL_LOCAL_VAR
           (concat (map (\<lambda>identifier_list. map name_of (children identifier_list)) decls))"
proof (induction decls arbitrary: table)
  case Nil
  then show ?case by simp
next
  case (Cons l decls)
  from Cons.prems obtain ids table1
    where ids: "children_of l = Inr ids"
      and first: "declare_identifiers block table ids = Inr table1"
      and rest: "declare_identifier_lists block table1 decls = Inr table'"
    by (auto split: sum.splits)
  from declare_identifiers_entries [OF first]
  have e1: "table_entries table1 =
      table_entries table @ numbered (length (symbols table)) SYMBOL_LOCAL_VAR (map name_of ids)" .
  then have "length (table_entries table1) = length (symbols table) + length ids"
    by simp
  then have len: "length (symbols table1) = length (symbols table) + length ids"
    by simp
  from Cons.IH [OF rest] e1 len children_of_children [OF ids]
  show ?case by (simp add: numbered_append)
qed

lemma symbols_set_hashmap [simp]:
  "symbols (local_symbols (set_hashmap st h)) = symbols (local_symbols st)"
  "table_entries (local_symbols (set_hashmap st h)) = table_entries (local_symbols st)"
  by (simp_all add: set_hashmap_def table_entries_def)

lemma bind_names_default:
  assumes "t \<noteq> BLOCK" "t \<noteq> IDENTIFIER" "t \<noteq> STRING_LITERAL"
  shows "bind_names st (Node t d s cs) =
           (case bind_names_children st cs of
              Inl e \<Rightarrow> Inl e
            | Inr (st', cs') \<Rightarrow> Inr (st', Node t d s cs'))"
  using assms by (cases t) (auto simp: Let_def split: sum.splits)

lemma declared_names_default:
  assumes "t \<noteq> BLOCK" "t \<noteq> IDENTIFIER" "t \<noteq> STRING_LITERAL"
  shows "declared_names (Node t d s cs) = declared_names_children cs"
  using assms by (cases t) simp_all

lemma bind_names_children_entries:
  assumes "\<And>c st st' c'. c \<in> set ns \<Longrightarrow> bind_names st c = Inr (st', c') \<Longrightarrow>
      table_entries (local_symbols st') =
        table_entries (local_symbols st)
        @ numbered (length (symbols (local_symbols st))) SYMBOL_LOCAL_VAR (declared_names c)"
    and "bind_names_children st ns = Inr (st', ns')"
  shows "table_entries (local_symbols st') =
        table_entries (local_symbols st)
        @ numbered (length (symbols (local_symbols st))) SYMBOL_LOCAL_VAR
            (declared_names_children ns)"
  using assms
proof (induction ns arbitrary: st st' ns')
  case Nil
  then show ?case by simp
next
  case (Cons c ns)
  from Cons.prems(2) obtain st1 c' cs'
    where first: "bind_names st c = Inr (st1, c')"
      and rest: "bind_names_children st1 ns = Inr (st', cs')"
    by (auto split: sum.splits prod.splits)
  from Cons.prems(1) [OF _ first]
  have e1: "table_entries (local_symbols st1) =
      table_entries (local_symbols st)
      @ numbered (length (symbols (local_symbols st))) SYMBOL_LOCAL_VAR (declared_names c)"
    by simp
  then have "length (table_entries (local_symbols st1)) =
      length (symbols (local_symbols st)) + length (declared_names c)"
    by simp
  then have len: "length (symbols (local_symbols st1)) =
      length (symbols (local_symbols st)) + length (declared_names c)"
    by simp
  have "table_entries (local_symbols st') =
      table_entries (local_symbols st1)
      @ numbered (length (symbols (local_symbols st1))) SYMBOL_LOCAL_VAR
          (declared_names_children ns)"
    using Cons.IH [OF _ rest] Cons.prems(1) by simp
  with e1 len show ?case
    by (simp add: numbered_append)
qed

lemma bind_names_entries:
  "bind_names st n = Inr (st', n') \<Longrightarrow>
     table_entries (local_symbols st') =
       table_entries (local_symbols st)
       @ numbered (length (symbols (local_symbols st))) SYMBOL_LOCAL_VAR (declared_names n)"
proof (induction n arbitrary: st st' n' rule: node_children_induct)
  case Null
  then show ?case by simp
next
  case (Node t d s cs)
  have kids: "table_entries (local_symbols st2) =
        table_entries (local_symbols st1)
        @ numbered (length (symbols (local_symbols st1))) SYMBOL_LOCAL_VAR
            (declared_names_children ns)"
    if "set ns \<subseteq> set cs" and "bind_names_children st1 ns = Inr (st2, ns')"
    for ns st1 st2 ns'
  proof (rule bind_names_children_entries [OF _ that(2)])
    fix c st st' c'
    assume "c \<in> set ns" and "bind_names st c = Inr (st', c')"
    with that(1) show "table_entries (local_symbols st') =
        table_entries (local_symbols st)
        @ numbered (length (symbols (local_symbols st))) SYMBOL_LOCAL_VAR (declared_names c)"
      using Node.IH by blast
  qed
  consider (block) "t = BLOCK" | (ident) "t = IDENTIFIER" | (string) "t = STRING_LITERAL"
    | (other) "t \<noteq> BLOCK" "t \<noteq> IDENTIFIER" "t \<noteq> STRING_LITERAL"
    by blast
  then show ?case
  proof cases
    case ident
    with Node.prems show ?thesis
      by (auto simp: Let_def split: sum.splits option.splits)
  next
    case string
    with Node.prems show ?thesis
      by (auto simp: Let_def add_string_def table_entries_def split: sum.splits)
  next
    case other
    from Node.prems bind_names_default [OF other, of st d s cs]
    obtain cs' where "bind_names_children st cs = Inr (st', cs')"
      by (auto split: sum.splits prod.splits)
    from kids [OF subset_refl this] declared_names_default [OF other, of d s cs]
    show ?thesis by simp
  next
    case block
    define st1 where "st1 = set_hashmap st (set_backup symbol_hashmap_init (hashmap (local_symbols st)))"
    show ?thesis
    proof (cases "length cs = 2")
      case False
      with Node.prems block obtain st2 cs'
        where "bind_names_children st1 cs = Inr (st2, cs')"
          and st': "st' = set_hashmap st2 (hashmap (local_symbols st))"
        by (auto simp: Let_def st1_def split: sum.splits prod.splits)
      from kids [OF subset_refl this(1)] st' block False show ?thesis
        by (simp add: st1_def)
    next
      case True
      with Node.prems block obtain first_child identifier_lists table st2 cs'
        where fc: "child cs 0 = Inr first_child"
          and il: "children_of first_child = Inr identifier_lists"
          and dl: "declare_identifier_lists (Node t d s cs) (local_symbols st1) identifier_lists
                     = Inr table"
          and bc: "bind_names_children (st1\<lparr>local_symbols := table\<rparr>) (drop 1 cs) = Inr (st2, cs')"
          and st': "st' = set_hashmap st2 (hashmap (local_symbols st))"
        by (auto simp: Let_def st1_def split: sum.splits prod.splits)
      from fc have fc0: "first_child = cs ! 0"
        by (auto simp: child_def split: if_splits)
      from declare_identifier_lists_entries [OF dl] children_of_children [OF il] fc0
      have e1: "table_entries table =
          table_entries (local_symbols st)
          @ numbered (length (symbols (local_symbols st))) SYMBOL_LOCAL_VAR
              (declaration_names (cs ! 0))"
        by (simp add: st1_def declaration_names_def)
      then have "length (table_entries table) =
          length (symbols (local_symbols st)) + length (declaration_names (cs ! 0))"
        by simp
      then have len: "length (symbols table) =
          length (symbols (local_symbols st)) + length (declaration_names (cs ! 0))"
        by simp
      have "table_entries (local_symbols st2) =
          table_entries table
          @ numbered (length (symbols table)) SYMBOL_LOCAL_VAR
              (declared_names_children (drop 1 cs))"
        using kids [OF set_drop_subset bc] by simp
      with e1 len st' block True show ?thesis
        by (simp add: numbered_append)
    qed
  qed
qed

lemma create_parameter_symbols_entries:
  "create_parameter_symbols table ps = Inr table' \<Longrightarrow>
     table_entries table' =
       table_entries table @ numbered (length (symbols table)) SYMBOL_PARAMETER (map name_of ps)"
proof (induction ps arbitrary: table)
  case Nil
  then show ?case by simp
next
  case (Cons p ps)
  from Cons.prems obtain name smb table1
    where name: "identifier_of p = Inr name"
      and made: "create_symbol p name SYMBOL_PARAMETER table = (Some smb, table1)"
      and rest: "create_parameter_symbols table1 ps = Inr table'"
    by (auto split: sum.splits prod.splits option.splits if_splits)
  from create_symbol_Some(1) [OF made]
  have len: "length (symbols table1) = Suc (length (symbols table))" by simp
  from Cons.IH [OF rest] create_symbol_entries [OF made] len identifier_name_of [OF name]
  show ?case by simp
qed

lemma create_tables_function_entries:
  assumes "create_tables_function st f = Inr (st', f')"
  shows "table_entries (local_symbols st') =
           table_entries (local_symbols st)
           @ numbered (length (symbols (local_symbols st))) SYMBOL_PARAMETER (parameter_names f)
           @ numbered (length (symbols (local_symbols st)) + length (parameter_names f))
               SYMBOL_LOCAL_VAR (declared_names (body_of_function f))"
proof -
  from assms obtain fcs parameter_list_node parameters table block_node block_node'
    where fcs: "children_of f = Inr fcs"
      and pl: "child fcs 1 = Inr parameter_list_node"
      and ps: "children_of parameter_list_node = Inr parameters"
      and cp: "create_parameter_symbols (local_symbols st) parameters = Inr table"
      and bn: "child fcs 2 = Inr block_node"
      and bind: "bind_names (st\<lparr>local_symbols := table\<rparr>) block_node = Inr (st', block_node')"
    by (auto simp: create_tables_function_def split: sum.splits prod.splits if_splits)
  from pl have pl1: "parameter_list_node = fcs ! 1"
    by (auto simp: child_def split: if_splits)
  from bn have bn2: "block_node = fcs ! 2"
    by (auto simp: child_def split: if_splits)
  from children_of_children [OF fcs] children_of_children [OF ps] pl1
  have pn: "parameter_names f = map name_of parameters"
    by (simp add: parameter_names_def)
  from children_of_children [OF fcs] bn2
  have fb: "body_of_function f = block_node"
    by (simp add: body_of_function_def)
  from create_parameter_symbols_entries [OF cp] pn
  have e1: "table_entries table =
      table_entries (local_symbols st)
      @ numbered (length (symbols (local_symbols st))) SYMBOL_PARAMETER (parameter_names f)"
    by simp
  then have "length (table_entries table) =
      length (symbols (local_symbols st)) + length (parameter_names f)"
    by simp
  then have len: "length (symbols table) =
      length (symbols (local_symbols st)) + length (parameter_names f)"
    by simp
  from bind_names_entries [OF bind]
  have "table_entries (local_symbols st') =
      table_entries table
      @ numbered (length (symbols table)) SYMBOL_LOCAL_VAR (declared_names block_node)"
    by simp
  then show ?thesis
    unfolding e1 len fb by simp
qed

text \<open>
  Claim C6. When the binding of a function succeeds on a table that was empty, the
  table lists the parameters from left to right and then the local variables in
  declaration order, blocks nested or side by side alike, and the sequence number of each
  symbol is its position in that list: the numbers are 0, 1, 2, ... without a gap, so
  they rise strictly and none is used twice.
\<close>

theorem sequence_numbers_follow_declarations:
  assumes "symbols (local_symbols st) = []"
    and "create_tables_function st f = Inr (st', f')"
  shows "table_entries (local_symbols st') =
           numbered 0 SYMBOL_PARAMETER (parameter_names f)
           @ numbered (length (parameter_names f)) SYMBOL_LOCAL_VAR
               (declared_names (body_of_function f))
         \<and> map symbol_sequence_number (symbols (local_symbols st'))
             = [0..<length (symbols (local_symbols st'))]"
proof -
  let ?p = "length (parameter_names f)"
  let ?l = "length (declared_names (body_of_function f))"
  from create_tables_function_entries [OF assms(2)] assms(1)
  have e: "table_entries (local_symbols st') =
           numbered 0 SYMBOL_PARAMETER (parameter_names f)
           @ numbered ?p SYMBOL_LOCAL_VAR (declared_names (body_of_function f))"
    by (simp add: table_entries_def)
  then have "length (table_entries (local_symbols st')) = ?p + ?l"
    by simp
  then have len: "length (symbols (local_symbols st')) = ?p + ?l"
    by simp
  have "map symbol_sequence_number (symbols (local_symbols st'))
      = map (\<lambda>(name, ty', q). q) (table_entries (local_symbols st'))"
    by (simp add: table_entries_def)
  also have "\<dots> = [0..<?p] @ [?p..<?p + ?l]"
    by (simp add: e numbered_sequence)
  also have "\<dots> = [0..<?p + ?l]"
    using upt_add_eq_append [of 0 ?p ?l] by simp
  finally have "map symbol_sequence_number (symbols (local_symbols st'))
      = [0..<length (symbols (local_symbols st'))]"
    by (simp only: len)
  with e show ?thesis by simp
qed

lemma create_symbol_eq:
  "create_symbol symbol_node name ty table =
     (if entries_of (hashmap table) name \<noteq> None then (None, table)
      else (Some (Symbol ty name symbol_node (length (symbols table))),
            table\<lparr>symbols := symbols table @ [Symbol ty name symbol_node (length (symbols table))],
                  hashmap := Hashmap ((entries_of (hashmap table))
                                        (name \<mapsto> Symbol ty name symbol_node (length (symbols table))))
                               (backup_of (hashmap table))\<rparr>))"
  by (cases "hashmap table")
    (simp add: create_symbol_def symbol_table_insert_def Let_def)

lemma identifier_shape_of: "identifier_shape n \<Longrightarrow> identifier_of n = Inr (name_of n)"
  by (induction n rule: identifier_shape.induct) simp_all

lemma declare_identifiers_append:
  "declare_identifiers block table (xs @ ys) =
     (case declare_identifiers block table xs of
        Inl e \<Rightarrow> Inl e
      | Inr table' \<Rightarrow> declare_identifiers block table' ys)"
  by (induction xs arbitrary: table) (auto split: sum.splits prod.splits option.splits)

lemma declare_identifier_lists_concat:
  "list_all (\<lambda>l. l \<noteq> Null) decls \<Longrightarrow>
     declare_identifier_lists block table decls =
       declare_identifiers block table (concat (map children decls))"
proof (induction decls arbitrary: table)
  case Nil
  show ?case by simp
next
  case (Cons l decls)
  then obtain t d s cs where l: "l = Node t d s cs"
    by (cases l) auto
  with Cons show ?case
    by (simp add: declare_identifiers_append split: sum.splits)
qed

lemma declare_identifiers_collision:
  assumes "list_all identifier_shape ids"
    and "\<not> distinct (map name_of ids)
         \<or> (\<exists>n \<in> set (map name_of ids). entries_of (hashmap table) n \<noteq> None)"
  shows "declare_identifiers block table ids = Inl Exit_Failure"
  using assms
proof (induction ids arbitrary: table)
  case Nil
  then show ?case by simp
next
  case (Cons i ids)
  from Cons.prems(1) have i: "identifier_of i = Inr (name_of i)"
    and rest: "list_all identifier_shape ids"
    by (simp_all add: identifier_shape_of)
  show ?case
  proof (cases "entries_of (hashmap table) (name_of i) \<noteq> None")
    case True
    with i show ?thesis
      by (simp add: create_symbol_eq)
  next
    case False
    let ?smb = "Symbol SYMBOL_LOCAL_VAR (name_of i) block (length (symbols table))"
    let ?table1 = "table\<lparr>symbols := symbols table @ [?smb],
        hashmap := Hashmap ((entries_of (hashmap table))(name_of i \<mapsto> ?smb))
                     (backup_of (hashmap table))\<rparr>"
    from Cons.prems(2) False
    have "\<not> distinct (map name_of ids)
         \<or> (\<exists>n \<in> set (map name_of ids). entries_of (hashmap ?table1) n \<noteq> None)"
      by auto
    from Cons.IH [OF rest this] i False show ?thesis
      by (simp add: create_symbol_eq)
  qed
qed

lemma declare_identifiers_fresh:
  assumes "list_all identifier_shape ids"
    and "distinct (map name_of ids)"
    and "\<forall>n \<in> set (map name_of ids). entries_of (hashmap table) n = None"
  shows "\<exists>table'. declare_identifiers block table ids = Inr table'
           \<and> backup_of (hashmap table') = backup_of (hashmap table)
           \<and> (\<forall>i < length ids. entries_of (hashmap table') (name_of (ids ! i))
                 = Some (Symbol SYMBOL_LOCAL_VAR (name_of (ids ! i)) block
                           (length (symbols table) + i)))
           \<and> (\<forall>n. n \<notin> set (map name_of ids) \<longrightarrow>
                 entries_of (hashmap table') n = entries_of (hashmap table) n)"
  using assms
proof (induction ids arbitrary: table)
  case Nil
  then show ?case by simp
next
  case (Cons i ids)
  from Cons.prems(1) have i: "identifier_of i = Inr (name_of i)"
    and rest: "list_all identifier_shape ids"
    by (simp_all add: identifier_shape_of)
  let ?smb = "Symbol SYMBOL_LOCAL_VAR (name_of i) block (length (symbols table))"
  let ?table1 = "table\<lparr>symbols := symbols table @ [?smb],
      hashmap := Hashmap ((entries_of (hashmap table))(name_of i \<mapsto> ?smb))
                   (backup_of (hashmap table))\<rparr>"
  from Cons.prems(2) have d: "distinct (map name_of ids)" and notin: "name_of i \<notin> set (map name_of ids)"
    by simp_all
  have free: "\<forall>n \<in> set (map name_of ids). entries_of (hashmap ?table1) n = None"
  proof
    fix n
    assume n: "n \<in> set (map name_of ids)"
    with notin have "n \<noteq> name_of i" by blast
    moreover from Cons.prems(3) n have "entries_of (hashmap table) n = None" by auto
    ultimately show "entries_of (hashmap ?table1) n = None" by simp
  qed
  from Cons.IH [OF rest d free]
  obtain table' where run: "declare_identifiers block ?table1 ids = Inr table'"
    and bk: "backup_of (hashmap table') = backup_of (hashmap ?table1)"
    and found: "\<forall>j < length ids. entries_of (hashmap table') (name_of (ids ! j))
                 = Some (Symbol SYMBOL_LOCAL_VAR (name_of (ids ! j)) block
                           (length (symbols ?table1) + j))"
    and kept: "\<forall>n. n \<notin> set (map name_of ids) \<longrightarrow>
                 entries_of (hashmap table') n = entries_of (hashmap ?table1) n"
    by blast
  from Cons.prems(3) have fresh: "entries_of (hashmap table) (name_of i) = None"
    by simp
  have step: "declare_identifiers block table (i # ids) = Inr table'"
    using i fresh run by (simp add: create_symbol_eq)
  have all: "entries_of (hashmap table') (name_of ((i # ids) ! j))
                 = Some (Symbol SYMBOL_LOCAL_VAR (name_of ((i # ids) ! j)) block
                           (length (symbols table) + j))"
    if "j < length (i # ids)" for j
  proof (cases j)
    case 0
    with kept notin show ?thesis by simp
  next
    case (Suc k)
    with that found show ?thesis by simp
  qed
  have others: "entries_of (hashmap table') n = entries_of (hashmap table) n"
    if "n \<notin> set (map name_of (i # ids))" for n
    using that kept by simp
  from step bk all others show ?case
    by auto
qed

lemma lookup_entries:
  "entries_of h n = Some smb \<Longrightarrow> symbol_hashmap_lookup h n = Some smb"
  by (cases h) simp

lemma declaration_shape_facts:
  assumes "declaration_shape decls"
  shows "children_of decls = Inr (children decls)"
    and "declare_identifier_lists block table (children decls)
           = declare_identifiers block table (concat (map children (children decls)))"
    and "list_all identifier_shape (concat (map children (children decls)))"
    and "declaration_names decls = map name_of (concat (map children (children decls)))"
proof -
  from assms show "children_of decls = Inr (children decls)"
    by (cases decls) (simp_all add: declaration_shape_def)
  from assms have "list_all (\<lambda>l. l \<noteq> Null) (children decls)"
    by (simp add: declaration_shape_def list_all_iff)
  then show "declare_identifier_lists block table (children decls)
           = declare_identifiers block table (concat (map children (children decls)))"
    by (rule declare_identifier_lists_concat)
  from assms show "list_all identifier_shape (concat (map children (children decls)))"
    by (auto simp: declaration_shape_def list_all_iff)
  show "declaration_names decls = map name_of (concat (map children (children decls)))"
    by (simp add: declaration_names_def map_concat comp_def)
qed

lemma fresh_scope_entries [simp]:
  "entries_of (hashmap (local_symbols (set_hashmap st (set_backup symbol_hashmap_init h)))) n = None"
  by (simp add: set_hashmap_def symbol_hashmap_init_def)

lemma new_symbols_Nil [simp]: "new_symbols block k [] = []"
  by (simp add: new_symbols_def)

lemma new_symbols_Cons [simp]:
  "new_symbols block k (name # names) =
     Symbol SYMBOL_LOCAL_VAR name block k # new_symbols block (Suc k) names"
  by (simp add: new_symbols_def)

lemma length_new_symbols [simp]: "length (new_symbols block k names) = length names"
  by (simp add: new_symbols_def)

lemma declare_identifiers_exact:
  assumes "list_all identifier_shape ids"
    and "distinct (map name_of ids)"
    and "\<forall>n \<in> set (map name_of ids). entries_of (hashmap table) n = None"
  shows "declare_identifiers block table ids =
           Inr (table\<lparr>symbols := symbols table
                           @ new_symbols block (length (symbols table)) (map name_of ids),
                       hashmap := Hashmap
                         (entries_of (hashmap table)
                            ++ map_of (zip (map name_of ids)
                                 (new_symbols block (length (symbols table)) (map name_of ids))))
                         (backup_of (hashmap table))\<rparr>)"
  using assms
proof (induction ids arbitrary: table)
  case Nil
  show ?case by (cases "hashmap table") simp
next
  case (Cons i ids)
  from Cons.prems(1) have i: "identifier_of i = Inr (name_of i)"
    and rest: "list_all identifier_shape ids"
    by (simp_all add: identifier_shape_of)
  let ?smb = "Symbol SYMBOL_LOCAL_VAR (name_of i) block (length (symbols table))"
  let ?table1 = "table\<lparr>symbols := symbols table @ [?smb],
      hashmap := Hashmap ((entries_of (hashmap table))(name_of i \<mapsto> ?smb))
                   (backup_of (hashmap table))\<rparr>"
  from Cons.prems(2) have d: "distinct (map name_of ids)"
    and notin: "name_of i \<notin> set (map name_of ids)"
    by simp_all
  have free: "\<forall>n \<in> set (map name_of ids). entries_of (hashmap ?table1) n = None"
  proof
    fix n
    assume n: "n \<in> set (map name_of ids)"
    with notin have "n \<noteq> name_of i" by blast
    moreover from Cons.prems(3) n have "entries_of (hashmap table) n = None" by auto
    ultimately show "entries_of (hashmap ?table1) n = None" by simp
  qed
  from Cons.prems(3) have fresh: "entries_of (hashmap table) (name_of i) = None"
    by simp
  let ?rest = "new_symbols block (Suc (length (symbols table))) (map name_of ids)"
  have notdom: "name_of i \<notin> dom (map_of (zip (map name_of ids) ?rest))"
    using notin by (auto dest: map_of_SomeD set_zip_leftD)
  have maps: "(entries_of (hashmap table))(name_of i \<mapsto> ?smb)
                ++ map_of (zip (map name_of ids) ?rest)
            = (entries_of (hashmap table) ++ map_of (zip (map name_of ids) ?rest))
                (name_of i \<mapsto> ?smb)"
    by (rule map_add_upd_left [OF notdom])
  have step: "declare_identifiers block table (i # ids) = declare_identifiers block ?table1 ids"
    using i fresh by (simp add: create_symbol_eq)
  have "declare_identifiers block ?table1 ids =
          Inr (?table1\<lparr>symbols := symbols ?table1
                           @ new_symbols block (length (symbols ?table1)) (map name_of ids),
                       hashmap := Hashmap
                         (entries_of (hashmap ?table1)
                            ++ map_of (zip (map name_of ids)
                                 (new_symbols block (length (symbols ?table1)) (map name_of ids))))
                         (backup_of (hashmap ?table1))\<rparr>)"
    by (rule Cons.IH [OF rest d free])
  also have "\<dots> = Inr (table\<lparr>symbols := symbols table
                           @ new_symbols block (length (symbols table)) (map name_of (i # ids)),
                       hashmap := Hashmap
                         (entries_of (hashmap table)
                            ++ map_of (zip (map name_of (i # ids))
                                 (new_symbols block (length (symbols table)) (map name_of (i # ids)))))
                         (backup_of (hashmap table))\<rparr>)"
    by (simp add: maps)
  finally show ?case
    by (simp only: step)
qed

lemma lookup_backup:
  "symbol_hashmap_lookup (Hashmap m (Some h)) = symbol_hashmap_lookup h ++ m"
  by (rule ext) (simp add: map_add_def split: option.splits)

lemma lookup_fresh_scope [simp]:
  "symbol_hashmap_lookup (set_backup symbol_hashmap_init h) = symbol_hashmap_lookup h"
  by (rule ext) (simp add: symbol_hashmap_init_def split: option.splits)

lemma bound_state_simps [simp]:
  "hashmap (local_symbols (bound_state st syms strs)) = hashmap (local_symbols st)"
  "symbols (local_symbols (bound_state st syms strs)) = syms"
  "string_list (bound_state st syms strs) = strs"
  "bound_state (bound_state st syms strs) syms' strs' = bound_state st syms' strs'"
  "bound_state st (symbols (local_symbols st)) (string_list st) = st"
  by (simp_all add: bound_state_def)

lemma string_shape_of: "string_shape n \<Longrightarrow> string_literal_of n = Inr (text_of n)"
  by (induction n rule: string_shape.induct) simp_all

lemma binding_shape_default:
  assumes "t \<noteq> BLOCK" "t \<noteq> IDENTIFIER" "t \<noteq> STRING_LITERAL"
  shows "binding_shape (Node t d s cs) = binding_shapes cs"
  using assms by (cases t) simp_all

lemma env_bind_default:
  assumes "t \<noteq> BLOCK" "t \<noteq> IDENTIFIER" "t \<noteq> STRING_LITERAL"
  shows "env_bind env syms strs (Node t d s cs) =
           (case env_bind_children env syms strs cs of
              None \<Rightarrow> None
            | Some (syms', strs', cs') \<Rightarrow> Some (syms', strs', Node t d s cs'))"
  using assms by (cases t) (auto split: option.splits)

lemma binding_shapes_all: "binding_shapes ns = list_all binding_shape ns"
  by (induction ns) simp_all

lemma bind_names_children_env:
  assumes "\<And>c st. c \<in> set ns \<Longrightarrow>
      bind_names st c =
        binding_result st
          (env_bind (symbol_hashmap_lookup (hashmap (local_symbols st)))
             (symbols (local_symbols st)) (string_list st) c)"
  shows "bind_names_children st ns =
        binding_result st
          (env_bind_children (symbol_hashmap_lookup (hashmap (local_symbols st)))
             (symbols (local_symbols st)) (string_list st) ns)"
  using assms
proof (induction ns arbitrary: st)
  case Nil
  show ?case by (simp add: binding_result_def)
next
  case (Cons c ns)
  let ?env = "symbol_hashmap_lookup (hashmap (local_symbols st))"
  have first: "bind_names st c =
      binding_result st (env_bind ?env (symbols (local_symbols st)) (string_list st) c)"
    by (rule Cons.prems) simp
  show ?case
  proof (cases "env_bind ?env (symbols (local_symbols st)) (string_list st) c")
    case None
    with first show ?thesis by (simp add: binding_result_def)
  next
    case (Some r)
    then obtain syms strs c' where r: "r = (syms, strs, c')"
      by (cases r) auto
    have rest: "bind_names_children (bound_state st syms strs) ns =
        binding_result (bound_state st syms strs)
          (env_bind_children ?env syms strs ns)"
      using Cons.IH [of "bound_state st syms strs"] Cons.prems by simp
    from first Some r rest show ?thesis
      by (auto simp: binding_result_def split: option.splits)
  qed
qed

lemma bind_names_env:
  "binding_shape n \<Longrightarrow>
     bind_names st n =
       binding_result st
         (env_bind (symbol_hashmap_lookup (hashmap (local_symbols st)))
            (symbols (local_symbols st)) (string_list st) n)"
proof (induction n arbitrary: st rule: node_children_induct)
  case Null
  show ?case by (simp add: binding_result_def)
next
  case (Node t d s cs)
  let ?env = "symbol_hashmap_lookup (hashmap (local_symbols st))"
  have kids: "bind_names_children st1 ns =
        binding_result st1
          (env_bind_children (symbol_hashmap_lookup (hashmap (local_symbols st1)))
             (symbols (local_symbols st1)) (string_list st1) ns)"
    if "set ns \<subseteq> set cs" and "binding_shapes ns" for ns st1
  proof (rule bind_names_children_env)
    fix c st
    assume "c \<in> set ns"
    with that have "c \<in> set cs" and "binding_shape c"
      by (auto simp: binding_shapes_all list_all_iff)
    then show "bind_names st c =
        binding_result st
          (env_bind (symbol_hashmap_lookup (hashmap (local_symbols st)))
             (symbols (local_symbols st)) (string_list st) c)"
      by (rule Node.IH)
  qed
  consider (block) "t = BLOCK" | (ident) "t = IDENTIFIER" | (string) "t = STRING_LITERAL"
    | (other) "t \<noteq> BLOCK" "t \<noteq> IDENTIFIER" "t \<noteq> STRING_LITERAL"
    by blast
  then show ?case
  proof cases
    case ident
    with Node.prems have "identifier_of (Node t d s cs) = Inr (name_of (Node t d s cs))"
      by (simp add: identifier_shape_of)
    with ident show ?thesis
      by (simp add: Let_def binding_result_def split: option.splits)
  next
    case string
    with Node.prems have "string_literal_of (Node t d s cs) = Inr (text_of (Node t d s cs))"
      by (simp add: string_shape_of)
    with string show ?thesis
      by (simp add: Let_def binding_result_def add_string_def bound_state_def)
  next
    case other
    from Node.prems have "binding_shapes cs"
      by (simp only: binding_shape_default [OF other])
    from kids [OF subset_refl this, of st] show ?thesis
      by (simp only: bind_names_default [OF other] env_bind_default [OF other])
        (simp add: binding_result_def split: option.splits)
  next
    case block
    define st1 where "st1 = set_hashmap st (set_backup symbol_hashmap_init (hashmap (local_symbols st)))"
    have restore: "set_hashmap (bound_state st1 syms strs) (hashmap (local_symbols st))
        = bound_state st syms strs" for syms strs
      by (simp add: st1_def set_hashmap_def bound_state_def)
    show ?thesis
    proof (cases "length cs = 2")
      case False
      from Node.prems block False have "binding_shapes cs" by simp
      from kids [OF subset_refl this, of st1]
      have "bind_names_children st1 cs =
          binding_result st1
            (env_bind_children ?env (symbols (local_symbols st)) (string_list st) cs)"
        by (simp add: st1_def) (simp add: set_hashmap_def)
      with block False show ?thesis
        by (simp add: Let_def st1_def [symmetric] binding_result_def restore
            split: option.splits)
    next
      case True
      then obtain decls body where cs: "cs = [decls, body]"
        by (cases cs; cases "tl cs") auto
      from Node.prems block cs have shape: "declaration_shape decls"
        and body: "binding_shapes [body]"
        by simp_all
      note facts = declaration_shape_facts [OF shape]
      let ?ids = "concat (map children (children decls))"
      let ?block = "Node t d s cs"
      show ?thesis
      proof (cases "distinct (declaration_names decls)")
        case False
        with facts(4) have "\<not> distinct (map name_of ?ids)" by simp
        then have "declare_identifiers ?block (local_symbols st1) ?ids = Inl Exit_Failure"
          using declare_identifiers_collision [OF facts(3)] by blast
        with block cs False show ?thesis
          by (simp add: Let_def st1_def [symmetric] child_def facts(1) facts(2)
              binding_result_def)
      next
        case dist: True
        define names where "names = declaration_names decls"
        define new where "new = new_symbols ?block (length (symbols (local_symbols st))) names"
        define table where "table = (local_symbols st)
            \<lparr>symbols := symbols (local_symbols st) @ new,
             hashmap := Hashmap (map_of (zip names new)) (Some (hashmap (local_symbols st)))\<rparr>"
        define st2 where "st2 = st1\<lparr>local_symbols := table\<rparr>"
        from dist facts(4) have d: "distinct (map name_of ?ids)" by simp
        have free: "\<forall>n \<in> set (map name_of ?ids).
            entries_of (hashmap (local_symbols st1)) n = None"
          by (simp add: st1_def)
        have "declare_identifiers ?block (local_symbols st1) ?ids = Inr table"
          unfolding declare_identifiers_exact [OF facts(3) d free]
          by (simp add: table_def new_def names_def facts(4) st1_def set_hashmap_def
              symbol_hashmap_init_def)
        then have declared: "declare_identifier_lists ?block (local_symbols st1) (children decls)
            = Inr table"
          by (simp only: facts(2))
        have env2: "symbol_hashmap_lookup (hashmap (local_symbols st2))
            = ?env ++ map_of (zip names new)"
          by (simp add: st2_def table_def lookup_backup)
        have "set [body] \<subseteq> set cs"
          by (simp add: cs)
        from kids [OF this body, of st2]
        have inner: "bind_names_children st2 [body] =
            binding_result st2
              (env_bind_children (?env ++ map_of (zip names new))
                 (symbols (local_symbols st) @ new) (string_list st) [body])"
          by (simp only: env2) (simp add: st2_def table_def st1_def set_hashmap_def)
        have restore2: "set_hashmap (bound_state st2 syms strs) (hashmap (local_symbols st))
            = bound_state st syms strs" for syms strs
          by (simp add: st2_def table_def st1_def set_hashmap_def bound_state_def)
        have code: "bind_names st ?block =
            (case bind_names_children st2 [body] of
               Inl e \<Rightarrow> Inl e
             | Inr (st3, cs') \<Rightarrow>
                 Inr (set_hashmap st3 (hashmap (local_symbols st)), Node t d s (decls # cs')))"
          using declared
          by (auto simp add: block cs Let_def child_def facts(1) st1_def [symmetric]
              st2_def [symmetric] simp del: bind_names_children.simps split: sum.splits)
        have spec: "env_bind ?env (symbols (local_symbols st)) (string_list st) ?block =
            (case env_bind_children (?env ++ map_of (zip names new))
                    (symbols (local_symbols st) @ new) (string_list st) [body] of
               None \<Rightarrow> None
             | Some (syms', strs', cs') \<Rightarrow> Some (syms', strs', Node t d s (decls # cs')))"
          using dist
          by (auto simp add: block cs names_def new_def block_scope_def
              simp del: env_bind_children.simps split: option.splits)
        show ?thesis
          by (simp only: code spec inner)
            (simp add: binding_result_def restore2 split: option.splits)
      qed
    qed
  qed
qed

lemma new_symbols_nth:
  "i < length names \<Longrightarrow>
     new_symbols block k names ! i = Symbol SYMBOL_LOCAL_VAR (names ! i) block (k + i)"
  by (simp add: new_symbols_def nth_enumerate_eq)

lemma block_scope_declared:
  assumes "distinct names" and "i < length names"
  shows "block_scope env block k names (names ! i)
           = Some (Symbol SYMBOL_LOCAL_VAR (names ! i) block (k + i))"
proof -
  have "map_of (zip names (new_symbols block k names)) (names ! i)
      = Some (new_symbols block k names ! i)"
    using assms by (intro map_of_zip_nth) simp_all
  with assms(2) show ?thesis
    by (simp add: block_scope_def new_symbols_nth)
qed

lemma block_scope_enclosing:
  assumes "name \<notin> set names"
  shows "block_scope env block k names name = env name"
proof -
  have none: "map_of (zip names (new_symbols block k names)) name = None"
    using assms by (simp add: map_of_zip_is_None)
  show ?thesis
    unfolding block_scope_def map_add_def by (simp only: none option.simps)
qed

text \<open>
  Claim C7. A block that declares a name twice ends the binding with a failure exit. A
  block whose declared names are distinct is bound whatever the enclosing scopes hold,
  also when they hold the same names: the target of an assignment to a declared name
  inside the block gets the block's own local-variable symbol, and when the block is
  left the scope map is the one from before the block. Inside the block, to any depth,
  every lookup goes through the scopes from the innermost outwards: on every tree of the
  data model's shape \<^verbatim>\<open>bind_names\<close> gives what binding over an environment gives, where a
  block's scope maps each of its declared names to the block's own symbol, whatever the
  enclosing scopes hold for it, and every other name to the symbol of the enclosing
  scopes; it fails only on a duplicate declaration in one block or on a name that no
  scope holds.
\<close>

theorem duplicate_collides_nested_shadows:
  assumes "declaration_shape decls" and "binding_shape n"
  shows "(\<not> distinct (declaration_names decls) \<longrightarrow>
            bind_names st (Node BLOCK d s [decls, body]) = Inl Exit_Failure)
       \<and> (distinct (declaration_names decls) \<longrightarrow> i < length (declaration_names decls) \<longrightarrow>
            (\<exists>st'. bind_names st
                     (Node BLOCK d s [decls, assignment_to (declaration_names decls ! i) None v])
                  = Inr (st',
                     Node BLOCK d s
                       [decls,
                        assignment_to (declaration_names decls ! i)
                          (Some (Symbol SYMBOL_LOCAL_VAR (declaration_names decls ! i)
                                   (Node BLOCK d s
                                      [decls, assignment_to (declaration_names decls ! i) None v])
                                   (length (symbols (local_symbols st)) + i)))
                          v])
                \<and> hashmap (local_symbols st') = hashmap (local_symbols st))
            \<and> block_scope env block k (declaration_names decls) (declaration_names decls ! i)
                = Some (Symbol SYMBOL_LOCAL_VAR (declaration_names decls ! i) block (k + i)))
       \<and> (name \<notin> set (declaration_names decls) \<longrightarrow>
            block_scope env block k (declaration_names decls) name = env name)
       \<and> bind_names st n =
           binding_result st
             (env_bind (symbol_hashmap_lookup (hashmap (local_symbols st)))
                (symbols (local_symbols st)) (string_list st) n)"
proof (intro conjI impI)
  note facts = declaration_shape_facts [OF assms(1)]
  let ?ids = "concat (map children (children decls))"
  let ?st1 = "set_hashmap st (set_backup symbol_hashmap_init (hashmap (local_symbols st)))"
  {
    assume dup: "\<not> distinct (declaration_names decls)"
    let ?block = "Node BLOCK d s [decls, body]"
    from dup facts(4) have "\<not> distinct (map name_of ?ids)" by simp
    then have "declare_identifiers ?block (local_symbols ?st1) ?ids = Inl Exit_Failure"
      using declare_identifiers_collision [OF facts(3)] by blast
    then show "bind_names st ?block = Inl Exit_Failure"
      by (simp add: Let_def child_def facts(1) facts(2))
  }
  {
    assume dist: "distinct (declaration_names decls)"
      and i: "i < length (declaration_names decls)"
    let ?n = "declaration_names decls ! i"
    let ?block = "Node BLOCK d s [decls, assignment_to ?n None v]"
    let ?smb = "Symbol SYMBOL_LOCAL_VAR ?n ?block (length (symbols (local_symbols st)) + i)"
    from dist facts(4) have d: "distinct (map name_of ?ids)" by simp
    have free: "\<forall>n \<in> set (map name_of ?ids). entries_of (hashmap (local_symbols ?st1)) n = None"
      by simp
    from declare_identifiers_fresh [OF facts(3) d free, of ?block]
    obtain table' where run: "declare_identifiers ?block (local_symbols ?st1) ?ids = Inr table'"
      and found: "\<forall>j < length ?ids. entries_of (hashmap table') (name_of (?ids ! j))
                 = Some (Symbol SYMBOL_LOCAL_VAR (name_of (?ids ! j)) ?block
                           (length (symbols (local_symbols ?st1)) + j))"
      by blast
    from i facts(4) have il: "i < length ?ids" by simp
    with facts(4) have ni: "name_of (?ids ! i) = ?n" by simp
    from found il ni have "entries_of (hashmap table') ?n = Some ?smb"
      by (metis symbols_set_hashmap(1))
    then have look: "symbol_hashmap_lookup (hashmap table') ?n = Some ?smb"
      by (rule lookup_entries)
    have use: "bind_names_children (?st1\<lparr>local_symbols := table'\<rparr>) [assignment_to ?n None v]
        = Inr (?st1\<lparr>local_symbols := table'\<rparr>, [assignment_to ?n (Some ?smb) v])"
      using look by (simp add: assignment_to_def literal_def Let_def)
    have "bind_names st ?block
        = Inr (set_hashmap (?st1\<lparr>local_symbols := table'\<rparr>) (hashmap (local_symbols st)),
               Node BLOCK d s [decls, assignment_to ?n (Some ?smb) v])"
      using run use
      by (simp add: Let_def child_def facts(1) facts(2)
          del: bind_names.simps(2) bind_names_children.simps
          add: bind_names.simps(2) [of st BLOCK])
    moreover have "hashmap (local_symbols
        (set_hashmap (?st1\<lparr>local_symbols := table'\<rparr>) (hashmap (local_symbols st))))
        = hashmap (local_symbols st)"
      by (simp add: set_hashmap_def)
    ultimately show "\<exists>st'. bind_names st ?block
        = Inr (st', Node BLOCK d s [decls, assignment_to ?n (Some ?smb) v])
        \<and> hashmap (local_symbols st') = hashmap (local_symbols st)"
      by blast
  }
  {
    assume "distinct (declaration_names decls)" and "i < length (declaration_names decls)"
    then show "block_scope env block k (declaration_names decls) (declaration_names decls ! i)
        = Some (Symbol SYMBOL_LOCAL_VAR (declaration_names decls ! i) block (k + i))"
      by (rule block_scope_declared)
  }
  {
    assume "name \<notin> set (declaration_names decls)"
    then show "block_scope env block k (declaration_names decls) name = env name"
      by (rule block_scope_enclosing)
  }
  from assms(2) show "bind_names st n =
      binding_result st
        (env_bind (symbol_hashmap_lookup (hashmap (local_symbols st)))
           (symbols (local_symbols st)) (string_list st) n)"
    by (rule bind_names_env)
qed

theorem sequence_numbers_follow_declarations_witness:
  "\<exists>st' f'. create_tables_function empty_state sibling_blocks_function = Inr (st', f')
      \<and> table_entries (local_symbols st') =
          [(''a'', SYMBOL_PARAMETER, 0), (''x'', SYMBOL_LOCAL_VAR, 1), (''x'', SYMBOL_LOCAL_VAR, 2)]
      \<and> map symbol_sequence_number (symbols (local_symbols st')) = [0, 1, 2]"
proof -
  have "\<exists>st' f'. create_tables_function empty_state sibling_blocks_function = Inr (st', f')"
    by (simp add: create_tables_function_def empty_state_def sibling_blocks_function_def
        declaration_of_def child_def create_symbol_def symbol_table_insert_def
        symbol_hashmap_init_def set_hashmap_def Let_def)
  then obtain st' f'
    where run: "create_tables_function empty_state sibling_blocks_function = Inr (st', f')"
    by blast
  have empty: "symbols (local_symbols empty_state) = []"
    by (simp add: empty_state_def)
  from sequence_numbers_follow_declarations [OF empty run]
  have e: "table_entries (local_symbols st') =
          [(''a'', SYMBOL_PARAMETER, 0), (''x'', SYMBOL_LOCAL_VAR, 1), (''x'', SYMBOL_LOCAL_VAR, 2)]"
    and q: "map symbol_sequence_number (symbols (local_symbols st'))
             = [0..<length (symbols (local_symbols st'))]"
    by (simp_all add: sibling_blocks_function_def parameter_names_def body_of_function_def
        declaration_names_def declaration_of_def)
  from e have "length (table_entries (local_symbols st')) = 3"
    by simp
  then have "length (symbols (local_symbols st')) = 3"
    by simp
  with q have "map symbol_sequence_number (symbols (local_symbols st')) = [0, 1, 2]"
    by (simp add: upt_rec)
  with run e show ?thesis
    by (intro exI [of _ st'] exI [of _ f']) simp
qed

theorem duplicate_collides_nested_shadows_witness:
  "bind_names outer_x_state
     (Node BLOCK No_Data None [declaration_of [''x'', ''x''], Node LIST No_Data None []])
     = Inl Exit_Failure
   \<and> (\<exists>st'. bind_names outer_x_state
         (Node BLOCK No_Data None [declaration_of [''x''], assignment_to ''x'' None 1])
       = Inr (st',
           Node BLOCK No_Data None
             [declaration_of [''x''],
              assignment_to ''x''
                (Some (Symbol SYMBOL_LOCAL_VAR ''x''
                         (Node BLOCK No_Data None
                            [declaration_of [''x''], assignment_to ''x'' None 1])
                         1))
                1])
       \<and> hashmap (local_symbols st') = hashmap (local_symbols outer_x_state))
   \<and> symbol_hashmap_lookup (hashmap (local_symbols outer_x_state)) ''x'' = Some outer_x
   \<and> bind_names outer_x_state shadowing_block
       = Inr (bound_state outer_x_state
                [outer_x,
                 Symbol SYMBOL_LOCAL_VAR ''x'' shadowing_block 1,
                 Symbol SYMBOL_LOCAL_VAR ''x'' inner_x_block 2]
                [],
              Node BLOCK No_Data None
                [declaration_of [''x''],
                 Node LIST No_Data None
                   [Node BLOCK No_Data None
                      [declaration_of [''x''],
                       assignment_to ''x'' (Some (Symbol SYMBOL_LOCAL_VAR ''x'' inner_x_block 2)) 1],
                    Node BLOCK No_Data None
                      [assignment_to ''x'' (Some (Symbol SYMBOL_LOCAL_VAR ''x'' shadowing_block 1)) 2],
                    Node ASSIGNMENT_STATEMENT No_Data None
                      [Node IDENTIFIER (Identifier ''x'')
                         (Some (Symbol SYMBOL_LOCAL_VAR ''x'' shadowing_block 1)) [],
                       literal 3]]])"
proof -
  have s2: "declaration_shape (declaration_of [''x'', ''x''])"
    and s1: "declaration_shape (declaration_of [''x''])"
    by (simp_all add: declaration_shape_def declaration_of_def)
  have shape: "binding_shape shadowing_block"
    by (simp add: shadowing_block_def inner_x_block_def declaration_shape_def
        declaration_of_def assignment_to_def literal_def)
  have n2: "declaration_names (declaration_of [''x'', ''x'']) = [''x'', ''x'']"
    and n1: "declaration_names (declaration_of [''x'']) = [''x'']"
    by (simp_all add: declaration_names_def declaration_of_def)
  have len: "length (symbols (local_symbols outer_x_state)) = 1"
    by (simp add: outer_x_state_def)
  have state: "symbols (local_symbols outer_x_state) = [outer_x]"
    "string_list outer_x_state = []"
    "symbol_hashmap_lookup (hashmap (local_symbols outer_x_state))
       = (\<lambda>name. None)(''x'' \<mapsto> outer_x)"
    by (auto simp: outer_x_state_def)
  have run: "env_bind ((\<lambda>name. None)(''x'' \<mapsto> outer_x)) [outer_x] [] shadowing_block
      = Some ([outer_x,
               Symbol SYMBOL_LOCAL_VAR ''x'' shadowing_block 1,
               Symbol SYMBOL_LOCAL_VAR ''x'' inner_x_block 2],
              [],
              Node BLOCK No_Data None
                [declaration_of [''x''],
                 Node LIST No_Data None
                   [Node BLOCK No_Data None
                      [declaration_of [''x''],
                       assignment_to ''x'' (Some (Symbol SYMBOL_LOCAL_VAR ''x'' inner_x_block 2)) 1],
                    Node BLOCK No_Data None
                      [assignment_to ''x'' (Some (Symbol SYMBOL_LOCAL_VAR ''x'' shadowing_block 1)) 2],
                    Node ASSIGNMENT_STATEMENT No_Data None
                      [Node IDENTIFIER (Identifier ''x'')
                         (Some (Symbol SYMBOL_LOCAL_VAR ''x'' shadowing_block 1)) [],
                       literal 3]]])"
    by (simp add: shadowing_block_def inner_x_block_def declaration_names_def
        declaration_of_def assignment_to_def literal_def block_scope_def new_symbols_def)
  from duplicate_collides_nested_shadows
         [OF s2 shape, where st = outer_x_state and d = No_Data and s = None
            and body = "Node LIST No_Data None []"]
       duplicate_collides_nested_shadows
         [OF s1 shape, where st = outer_x_state and d = No_Data and s = None
            and i = 0 and v = 1]
  show ?thesis
    by (simp add: n1 n2 len state run binding_result_def)
qed

section \<open>Null placeholders: theorem\<close>

text \<open>
  Claim C10. Constant folding, unreachable-code removal, name binding, statement
  generation and expression generation each return at once on a null node: no fault,
  the null node back, the state as it was, nothing printed. In a child list a null
  child leaves the traversal of the other children as it would be without it.
\<close>

theorem passes_skip_null:
  "constant_fold_subtree Null = Inr Null
   \<and> remove_unreachable_code Null = Inr (False, Null)
   \<and> bind_names st Null = Inr (st, Null)
   \<and> generate_statement cf Null = Inr []
   \<and> generate_expression cf Null = Inr []
   \<and> constant_fold_children (Null # cs) = map_sum id (\<lambda>cs'. Null # cs') (constant_fold_children cs)
   \<and> remove_unreachable_statements (Null # cs) =
       map_sum id (\<lambda>(b, cs'). (b, Null # cs')) (remove_unreachable_statements cs)
   \<and> bind_names_children st (Null # cs) =
       map_sum id (\<lambda>(st', cs'). (st', Null # cs')) (bind_names_children st cs)
   \<and> generate_statement_children cf (Null # cs) = generate_statement_children cf cs"
proof -
  have "then_emit (Inr []) x = x" for x
    by (cases x) simp_all
  then show ?thesis
    by (auto split: sum.splits)
qed

section \<open>Code generation: theorems\<close>

text \<open>
  Claim C1, at the input that refutes it in the code. The function
  \<^verbatim>\<open>func f() begin var x  x := 1  return x end\<close> has no parameter and one local variable,
  with sequence number 0. Binding gives the table \<open>[local_x]\<close>. The prologue pushes the
  zero for \<^verbatim>\<open>x\<close> right after the frame set-up, at \<^verbatim>\<open>-8(%rbp)\<close>; the store and the load of
  \<^verbatim>\<open>x\<close> use \<^verbatim>\<open>-56(%rbp)\<close>, the offset \<^verbatim>\<open>get_stack_offset\<close> computes with the larger of
  the parameter count and 6 where the prologue pushed the smaller of the two.
\<close>

theorem local_offset_misses_prologue_slot:
  "create_tables_function empty_state one_local_function =
     Inr (\<lparr>local_symbols = \<lparr>symbols = [local_x], hashmap = symbol_hashmap_init\<rparr>,
           string_list = []\<rparr>,
          one_local_function_bound)
   \<and> generate_function (Symbol SYMBOL_FUNCTION ''f'' one_local_function_bound 0) [local_x] =
       Inr [LABEL ''.%s'' [A_string ''f''],
            PUSHQ (A_reg RBP),
            MOVQ (A_reg RSP) (A_reg RBP),
            PUSHQ (A_string ''$0''),
            EMIT ''movq $%d, %s'' [A_int 1, A_reg RAX],
            EMIT ''movq %s, %d(%s)'' [A_reg RAX, A_int (- 56), A_reg RBP],
            EMIT ''movq %d(%s), %s'' [A_int (- 56), A_reg RBP, A_reg RAX],
            EMIT ''jmp .%s.epilogue'' [A_string ''f''],
            LABEL ''.%s.epilogue'' [A_string ''f''],
            MOVQ (A_reg RBP) (A_reg RSP),
            POPQ (A_reg RBP),
            RET]
   \<and> prologue_slots
        [LABEL ''.%s'' [A_string ''f''],
         PUSHQ (A_reg RBP),
         MOVQ (A_reg RSP) (A_reg RBP),
         PUSHQ (A_string ''$0''),
         EMIT ''movq $%d, %s'' [A_int 1, A_reg RAX]] = [(- 8, A_string ''$0'')]
   \<and> get_stack_offset (Symbol SYMBOL_FUNCTION ''f'' one_local_function_bound 0) 0 = Inr (- 56)"
  by (simp add: create_tables_function_def empty_state_def one_local_function_def
      one_local_block_def one_local_function_bound_def local_x_def child_def
      create_symbol_def symbol_table_insert_def symbol_hashmap_init_def set_hashmap_def
      add_string_def literal_def generate_function_def FUNC_PARAM_COUNT_def find_min_def
      find_max_def NUM_REGISTER_PARAMS_def REGISTER_PARAMS_def
      generate_assignment_statement_def generate_return_statement_def get_stack_offset_def
      size_t_to_int_def to_int_def prologue_slots_def Let_def)

text \<open>
  Claim C3, at the input that refutes it in the code. For the assignment \<^verbatim>\<open>x := g()\<close>
  the statement walker prints the assignment, whose expression code holds the call of
  \<^verbatim>\<open>g\<close>, and then visits the children of the assignment node, where it meets the call
  node again and prints the call a second time.
\<close>

theorem call_in_assignment_emitted_twice:
  "generate_statement cf assignment_of_call =
     Inr [EMIT ''call .%s'' [A_string ''g''],
          EMIT ''movq %s, .%s(%s)'' [A_reg RAX, A_string ''x'', A_reg RIP],
          EMIT ''call .%s'' [A_string ''g'']]"
  by (simp add: assignment_of_call_def generate_assignment_statement_def child_def
      callee_symbol_def global_x_def FUNC_PARAM_COUNT_def find_min_def
      NUM_REGISTER_PARAMS_def REGISTER_PARAMS_def literal_def)

end
